theory Spec2Isabelle
  imports Main "HOL-Library.Word" "HOL-Library.Multiset"
begin

section \<open>Data model of the task scheduler (iree/task/task.c)\<close>

text \<open>
  Tasks live in memory and point at each other. The model keeps one store per struct
  type, indexed by the task's address (\<open>task_ref\<close>); a nullable pointer is an
  \<open>option\<close>. Unsigned 32-bit values are \<open>32 word\<close>, so \<open>+\<close>, \<open>-\<close> and \<open>*\<close> wrap
  as in C. The pending dependency count (an atomic int32 that only counts inbound edges)
  and the \<open>iree_host_size_t\<close> worker indices are far from their limits and are modelled
  as \<open>int\<close> and \<open>nat\<close>.
\<close>

type_synonym u32 = "32 word"
type_synonym xyz = "u32 \<times> u32 \<times> u32"
type_synonym task_ref = nat
type_synonym scope_ref = nat
type_synonym pool_ref = nat
type_synonym closure_ref = nat
type_synonym cleanup_ref = nat
type_synonym addr = nat

datatype iree_status_code =
    IREE_STATUS_OK
  | IREE_STATUS_CANCELLED
  | IREE_STATUS_UNKNOWN
  | IREE_STATUS_INVALID_ARGUMENT
  | IREE_STATUS_DEADLINE_EXCEEDED
  | IREE_STATUS_NOT_FOUND
  | IREE_STATUS_ALREADY_EXISTS
  | IREE_STATUS_PERMISSION_DENIED
  | IREE_STATUS_RESOURCE_EXHAUSTED
  | IREE_STATUS_FAILED_PRECONDITION
  | IREE_STATUS_ABORTED
  | IREE_STATUS_OUT_OF_RANGE
  | IREE_STATUS_UNIMPLEMENTED
  | IREE_STATUS_INTERNAL
  | IREE_STATUS_UNAVAILABLE
  | IREE_STATUS_DATA_LOSS
  | IREE_STATUS_UNAUTHENTICATED

text \<open>A status value is modelled by its code; the message payload is dropped.\<close>

type_synonym iree_status = iree_status_code

definition iree_ok_status :: iree_status where
  "iree_ok_status = IREE_STATUS_OK"

definition iree_status_is_ok :: "iree_status \<Rightarrow> bool" where
  "iree_status_is_ok st = (st = IREE_STATUS_OK)"

datatype iree_task_type =
    IREE_TASK_TYPE_NOP
  | IREE_TASK_TYPE_CALL
  | IREE_TASK_TYPE_BARRIER
  | IREE_TASK_TYPE_FENCE
  | IREE_TASK_TYPE_WAIT
  | IREE_TASK_TYPE_DISPATCH
  | IREE_TASK_TYPE_DISPATCH_SLICE
  | IREE_TASK_TYPE_DISPATCH_SHARD

datatype iree_task_flag =
    IREE_TASK_FLAG_ABORTED
  | IREE_TASK_FLAG_WAIT_COMPLETED
  | IREE_TASK_FLAG_DISPATCH_INDIRECT
  | IREE_TASK_FLAG_DISPATCH_RETIRE

text \<open>The task header \<open>iree_task_t\<close>. The flag bitset is a set of flags:
  \<open>flags |= F\<close> is \<open>insert F\<close>, \<open>flags & F\<close> is membership.\<close>

record iree_task_t =
  scope :: scope_ref
  affinity_set :: "64 word"
  task_type :: iree_task_type
  flags :: "iree_task_flag set"
  pending_dependency_count :: int
  completion_task :: "task_ref option"
  cleanup_fn :: "cleanup_ref option"
  pool :: "pool_ref option"

text \<open>Modelled from the spec: the statistics block \<open>iree_task_dispatch_statistics_t\<close>
  is declared in task.h, which is not part of the sources at hand. The spec speaks of
  statistics recorded by tiles and of their sum, so a block is one counter.\<close>

type_synonym iree_task_dispatch_statistics_t = nat

record iree_task_call_t =
  call_closure :: closure_ref
  call_status :: iree_status

record iree_task_barrier_t =
  dependent_tasks :: "task_ref list"

record iree_task_dispatch_shard_state_t =
  tile_index :: u32
  tile_count :: u32
  tiles_per_reservation :: u32

text \<open>The \<open>workgroup_count\<close> union of a dispatch has an inline \<open>value\<close> member and a
  \<open>ptr\<close> member selected by the DISPATCH_INDIRECT flag; the model keeps both members as
  fields, the code only ever reads the member the flag selects.\<close>

record iree_task_dispatch_t =
  dispatch_closure :: closure_ref
  dispatch_workgroup_size :: xyz
  workgroup_count_value :: xyz
  workgroup_count_ptr :: addr
  dispatch_local_memory_size :: u32
  dispatch_status :: iree_status
  dispatch_statistics :: iree_task_dispatch_statistics_t
  shard_state :: iree_task_dispatch_shard_state_t

record iree_task_dispatch_slice_t =
  slice_closure :: closure_ref
  slice_dispatch_status :: task_ref
  workgroup_base :: xyz
  workgroup_range :: xyz
  slice_workgroup_size :: xyz
  slice_workgroup_count :: xyz
  slice_local_memory_size :: u32
  slice_dispatch_statistics :: "task_ref option"
  slice_statistics :: iree_task_dispatch_statistics_t

record iree_task_dispatch_shard_t =
  shard_dispatch_task :: task_ref
  shard_shared_state :: task_ref

text \<open>Modelled from the spec: the scope (scope.h/scope.c are not part of the sources at
  hand) has an outstanding-work counter, a permanent status that is CAS-set on the first
  failure, and the statistics dispatches merge into.\<close>

record iree_task_scope_t =
  permanent_status :: iree_status
  outstanding :: int
  scope_dispatch_statistics :: iree_task_dispatch_statistics_t

record iree_task_tile_context_t =
  workgroup_xyz :: xyz
  tile_workgroup_size :: xyz
  tile_workgroup_count :: xyz
  tile_statistics :: iree_task_dispatch_statistics_t
  tile_local_memory_length :: u32

text \<open>
  The scheduler state: the stores, the pools' free lists, the memory indirect dispatches
  read their workgroup count from, the pending submission and the post batch a function
  is handed, and logs of the callbacks invoked: \<open>cleanup_log\<close> (each call of a
  \<open>cleanup_fn\<close>), \<open>call_log\<close> (each call of a CALL closure) and \<open>tile_log\<close> (each call
  of a dispatch closure with the tile and the status it returned). \<open>user\<close> is whatever
  state the closures keep.
\<close>

record 'u sched =
  headers :: "task_ref \<Rightarrow> iree_task_t"
  calls :: "task_ref \<Rightarrow> iree_task_call_t"
  barriers :: "task_ref \<Rightarrow> iree_task_barrier_t"
  dispatches :: "task_ref \<Rightarrow> iree_task_dispatch_t"
  slices :: "task_ref \<Rightarrow> iree_task_dispatch_slice_t"
  shards :: "task_ref \<Rightarrow> iree_task_dispatch_shard_t"
  scopes :: "scope_ref \<Rightarrow> iree_task_scope_t"
  pools :: "pool_ref \<Rightarrow> task_ref list"
  indirect :: "addr \<Rightarrow> xyz"
  pending_submission :: "task_ref list"
  post_batch :: "(nat \<times> task_ref option) list"
  cleanup_log :: "(cleanup_ref \<times> task_ref \<times> iree_status_code) list"
  call_log :: "task_ref list"
  tile_log :: "(closure_ref \<times> xyz \<times> iree_status) list"
  user :: 'u

text \<open>
  What the code takes from its collaborators: the closures (a CALL closure may do
  anything to the scheduler state, for instance enqueue nested tasks; a dispatch closure
  sees its tile context and the user state and returns a status, the statistics block and
  the user state), the tuning constants of tuning.h, and the post batch's worker count and
  worker selection.
\<close>

record 'u env =
  call_fn :: "closure_ref \<Rightarrow> task_ref \<Rightarrow> 'u sched \<Rightarrow> iree_status \<times> 'u sched"
  tile_fn :: "closure_ref \<Rightarrow> iree_task_tile_context_t \<Rightarrow> 'u
                \<Rightarrow> iree_status \<times> iree_task_dispatch_statistics_t \<times> 'u"
  TILES_PER_SLICE_X :: u32
  TILES_PER_SLICE_Y :: u32
  TILES_PER_SLICE_Z :: u32
  MAX_TILES_PER_SHARD_RESERVATION :: u32
  worker_count :: nat
  select_worker :: "64 word \<Rightarrow> nat"

section \<open>Collaborators\<close>

text \<open>Modelled from the spec: \<open>iree_task_scope_fail\<close> (scope.c) CASes the scope's
  permanent status from OK to the given status; the first failure wins and later ones are
  dropped.\<close>

definition iree_task_scope_fail :: "scope_ref \<Rightarrow> task_ref \<Rightarrow> iree_status \<Rightarrow> 'u sched \<Rightarrow> 'u sched" where
  "iree_task_scope_fail sc task st s =
     (if iree_status_is_ok (permanent_status (scopes s sc))
      then s\<lparr>scopes := (scopes s)(sc := (scopes s sc)\<lparr>permanent_status := st\<rparr>)\<rparr>
      else s)"

text \<open>Modelled from the spec: \<open>iree_task_scope_begin\<close> increments the outstanding count
  and \<open>iree_task_scope_end\<close> decrements it.\<close>

definition iree_task_scope_begin :: "scope_ref \<Rightarrow> 'u sched \<Rightarrow> 'u sched" where
  "iree_task_scope_begin sc s =
     s\<lparr>scopes := (scopes s)(sc := (scopes s sc)\<lparr>outstanding := outstanding (scopes s sc) + 1\<rparr>)\<rparr>"

definition iree_task_scope_end :: "scope_ref \<Rightarrow> 'u sched \<Rightarrow> 'u sched" where
  "iree_task_scope_end sc s =
     s\<lparr>scopes := (scopes s)(sc := (scopes s sc)\<lparr>outstanding := outstanding (scopes s sc) - 1\<rparr>)\<rparr>"

text \<open>Modelled from the spec: \<open>iree_task_pool_acquire\<close> (pool.c) hands out a slot of the
  free list or fails with RESOURCE_EXHAUSTED; \<open>iree_task_pool_release\<close> returns a slot.\<close>

definition iree_task_pool_acquire :: "pool_ref \<Rightarrow> 'u sched \<Rightarrow> iree_status \<times> task_ref option \<times> 'u sched" where
  "iree_task_pool_acquire p s =
     (case pools s p of
        [] \<Rightarrow> (IREE_STATUS_RESOURCE_EXHAUSTED, None, s)
      | t # free \<Rightarrow> (IREE_STATUS_OK, Some t, s\<lparr>pools := (pools s)(p := free)\<rparr>))"

definition iree_task_pool_release :: "pool_ref \<Rightarrow> task_ref \<Rightarrow> 'u sched \<Rightarrow> 'u sched" where
  "iree_task_pool_release p t s = s\<lparr>pools := (pools s)(p := t # pools s p)\<rparr>"

text \<open>Modelled from the spec: \<open>iree_task_submission_enqueue\<close> (submission.c) stages a
  ready task; \<open>iree_task_post_batch_enqueue\<close> (post_batch.c) routes a task pointer to the
  worker with the given index. The post batch takes the pointer as it is handed over,
  NULL included.\<close>

definition iree_task_submission_enqueue :: "task_ref \<Rightarrow> 'u sched \<Rightarrow> 'u sched" where
  "iree_task_submission_enqueue t s = s\<lparr>pending_submission := pending_submission s @ [t]\<rparr>"

definition iree_task_post_batch_enqueue :: "nat \<Rightarrow> task_ref option \<Rightarrow> 'u sched \<Rightarrow> 'u sched" where
  "iree_task_post_batch_enqueue worker_index t s = s\<lparr>post_batch := post_batch s @ [(worker_index, t)]\<rparr>"

text \<open>Modelled from the spec: \<open>iree_task_affinity_for_any_worker\<close> (affinity_set.h) is
  the mask of all workers.\<close>

definition iree_task_affinity_for_any_worker :: "64 word" where
  "iree_task_affinity_for_any_worker = - 1"

section \<open>Task bookkeeping\<close>

definition set_header :: "task_ref \<Rightarrow> (iree_task_t \<Rightarrow> iree_task_t) \<Rightarrow> 'u sched \<Rightarrow> 'u sched" where
  "set_header t f s = s\<lparr>headers := (headers s)(t := f (headers s t))\<rparr>"

definition iree_task_initialize :: "iree_task_type \<Rightarrow> scope_ref \<Rightarrow> task_ref \<Rightarrow> 'u sched \<Rightarrow> 'u sched" where
  "iree_task_initialize ty sc out_task s =
     s\<lparr>headers := (headers s)(out_task :=
        \<lparr>scope = sc, affinity_set = iree_task_affinity_for_any_worker, task_type = ty,
         flags = {}, pending_dependency_count = 0, completion_task = None,
         cleanup_fn = None, pool = None\<rparr>)\<rparr>"

definition iree_task_set_cleanup_fn :: "task_ref \<Rightarrow> cleanup_ref option \<Rightarrow> 'u sched \<Rightarrow> 'u sched" where
  "iree_task_set_cleanup_fn task fn s = set_header task (\<lambda>h. h\<lparr>cleanup_fn := fn\<rparr>) s"

definition iree_task_set_completion_task :: "task_ref \<Rightarrow> task_ref \<Rightarrow> 'u sched \<Rightarrow> 'u sched" where
  "iree_task_set_completion_task task completion s =
     set_header completion (\<lambda>h. h\<lparr>pending_dependency_count := pending_dependency_count h + 1\<rparr>)
       (set_header task (\<lambda>h. h\<lparr>completion_task := Some completion\<rparr>) s)"

definition iree_task_is_ready :: "task_ref \<Rightarrow> 'u sched \<Rightarrow> bool" where
  "iree_task_is_ready task s = (\<not> pending_dependency_count (headers s task) > 0)"

text \<open>\<open>iree_task_try_set_status\<close>: a compare-exchange of the status slot from OK to the
  new status; an OK new status is ignored, and a new status that finds the slot taken is
  dropped.\<close>

definition iree_task_try_set_status :: "iree_status \<Rightarrow> iree_status \<Rightarrow> iree_status" where
  "iree_task_try_set_status permanent new_status =
     (if iree_status_is_ok new_status then permanent
      else if permanent = iree_ok_status then new_status
      else permanent)"

definition iree_task_cleanup :: "task_ref \<Rightarrow> iree_status_code \<Rightarrow> 'u sched \<Rightarrow> 'u sched" where
  "iree_task_cleanup task status_code s =
     (let p = pool (headers s task);
          s1 = (case cleanup_fn (headers s task) of
                  None \<Rightarrow> s
                | Some fn \<Rightarrow> s\<lparr>cleanup_log := cleanup_log s @ [(fn, task, status_code)]\<rparr>)
      in case p of None \<Rightarrow> s1 | Some p \<Rightarrow> iree_task_pool_release p task s1)"

text \<open>\<open>iree_task_discard\<close> pushes the completion task and, for a barrier, each dependent
  to the front of the worklist, ends the scope for a fence, and cleans the task up with
  ABORTED.\<close>

definition iree_task_discard :: "task_ref \<Rightarrow> task_ref list \<Rightarrow> 'u sched \<Rightarrow> task_ref list \<times> 'u sched" where
  "iree_task_discard task discard_worklist s =
     (let wl1 = (case completion_task (headers s task) of
                   None \<Rightarrow> discard_worklist
                 | Some c \<Rightarrow> c # discard_worklist);
          ty = task_type (headers s task);
          wl2 = (if ty = IREE_TASK_TYPE_BARRIER
                 then fold (\<lambda>d wl. d # wl) (dependent_tasks (barriers s task)) wl1
                 else wl1);
          s1 = (if ty = IREE_TASK_TYPE_FENCE
                then iree_task_scope_end (scope (headers s task)) s
                else s)
      in (wl2, iree_task_cleanup task IREE_STATUS_ABORTED s1))"

text \<open>Modelled from the spec: \<open>iree_task_list_discard\<close> (list.c) drains the worklist
  from the front, discarding each task, which pushes that task's dependents. On a cyclic
  graph the drain does not end, so the result is an \<open>option\<close>.\<close>

partial_function (option) iree_task_list_discard :: "task_ref list \<Rightarrow> 'u sched \<Rightarrow> 'u sched option" where
  "iree_task_list_discard discard_worklist s =
     (case discard_worklist of
        [] \<Rightarrow> Some s
      | task # rest \<Rightarrow>
          (case iree_task_discard task rest s of
             (wl, s1) \<Rightarrow> iree_task_list_discard wl s1))"

text \<open>\<open>iree_task_retire\<close>. The debug assertion that the task has no pending dependency
  is not part of the behaviour.\<close>

definition iree_task_retire :: "task_ref \<Rightarrow> iree_status \<Rightarrow> 'u sched \<Rightarrow> 'u sched option" where
  "iree_task_retire task status s =
     (let completion = completion_task (headers s task);
          s1 = set_header task (\<lambda>h. h\<lparr>completion_task := None\<rparr>) s;
          completion_task_ready =
            (case completion of
               None \<Rightarrow> False
             | Some c \<Rightarrow> pending_dependency_count (headers s1 c) = 1);
          s2 = (case completion of
                  None \<Rightarrow> s1
                | Some c \<Rightarrow>
                    set_header c (\<lambda>h. h\<lparr>pending_dependency_count := pending_dependency_count h - 1\<rparr>) s1)
      in if iree_status_is_ok status then
           (let s3 = iree_task_cleanup task IREE_STATUS_OK s2
            in Some (if completion_task_ready
                     then iree_task_submission_enqueue (the completion) s3
                     else s3))
         else
           (let s3 = iree_task_scope_fail (scope (headers s2 task)) task status s2;
                s4 = iree_task_cleanup task IREE_STATUS_ABORTED s3
            in if completion_task_ready then
                 (case iree_task_discard (the completion) [] s4 of
                    (wl, s5) \<Rightarrow> iree_task_list_discard wl s5)
               else
                 (case completion of
                    None \<Rightarrow> Some s4
                  | Some c \<Rightarrow>
                      Some (set_header c (\<lambda>h. h\<lparr>flags := insert IREE_TASK_FLAG_ABORTED (flags h)\<rparr>) s4))))"

section \<open>Loops over machine integers\<close>

text \<open>\<open>for (uint32_t i = i0; i < n; ++i) body\<close>: the counter stays below \<open>n\<close>, so it
  never wraps and the loop ends.\<close>

function for_u32 :: "u32 \<Rightarrow> u32 \<Rightarrow> (u32 \<Rightarrow> 'a \<Rightarrow> 'a) \<Rightarrow> 'a \<Rightarrow> 'a" where
  "for_u32 i n body a = (if i < n then for_u32 (i + 1) n body (body i a) else a)"
  by pat_completeness auto
termination
proof (relation "measure (\<lambda>(i, n, body, a). unat n - unat i)")
  show "wf (measure (\<lambda>(i, n, body, a). unat n - unat i))"
    by simp
next
  fix i n :: u32 and body :: "u32 \<Rightarrow> 'a \<Rightarrow> 'a" and a :: 'a
  assume lt: "i < n"
  then have less: "unat i < unat n"
    by (simp add: word_less_nat_alt)
  have "unat n < 2 ^ 32"
    using unsigned_less [of n] by simp
  with less have "unat i + 1 < 2 ^ 32"
    by simp
  then have "unat (i + 1) = Suc (unat i)"
    by (simp add: unat_word_ariths)
  with less show "((i + 1, n, body, body i a), (i, n, body, a))
      \<in> measure (\<lambda>(i, n, body, a). unat n - unat i)"
    by simp
qed

text \<open>\<open>for (iree_host_size_t i = i0; i < n; ++i) body\<close>.\<close>

function for_size_t :: "nat \<Rightarrow> nat \<Rightarrow> (nat \<Rightarrow> 'a \<Rightarrow> 'a) \<Rightarrow> 'a \<Rightarrow> 'a" where
  "for_size_t i n body a = (if i < n then for_size_t (Suc i) n body (body i a) else a)"
  by pat_completeness auto
termination
  by (relation "measure (\<lambda>(i, n, body, a). n - i)") auto

section \<open>CALL tasks\<close>

definition set_call_status :: "task_ref \<Rightarrow> iree_status \<Rightarrow> 'u sched \<Rightarrow> 'u sched" where
  "set_call_status task st s = s\<lparr>calls := (calls s)(task := (calls s task)\<lparr>call_status := st\<rparr>)\<rparr>"

definition iree_task_call_initialize :: "scope_ref \<Rightarrow> closure_ref \<Rightarrow> task_ref \<Rightarrow> 'u sched \<Rightarrow> 'u sched" where
  "iree_task_call_initialize sc closure out_task s =
     (let s1 = iree_task_initialize IREE_TASK_TYPE_CALL sc out_task s
      in s1\<lparr>calls := (calls s1)(out_task := \<lparr>call_closure = closure, call_status = iree_ok_status\<rparr>)\<rparr>)"

text \<open>The first half of \<open>iree_task_call_execute\<close>: unless the task is flagged ABORTED the
  closure runs, and a failure it returns is stashed in the task's status slot.\<close>

definition call_invoke :: "'u env \<Rightarrow> task_ref \<Rightarrow> 'u sched \<Rightarrow> 'u sched" where
  "call_invoke E task s =
     (if IREE_TASK_FLAG_ABORTED \<notin> flags (headers s task) then
        (case call_fn E (call_closure (calls s task)) task (s\<lparr>call_log := call_log s @ [task]\<rparr>) of
           (status, s1) \<Rightarrow>
             if \<not> iree_status_is_ok status
             then set_call_status task (iree_task_try_set_status (call_status (calls s1 task)) status) s1
             else s1)
      else s)"

definition iree_task_call_execute :: "'u env \<Rightarrow> task_ref \<Rightarrow> 'u sched \<Rightarrow> 'u sched option" where
  "iree_task_call_execute E task s =
     (let s1 = call_invoke E task s
      in if pending_dependency_count (headers s1 task) = 0 then
           (let status = call_status (calls s1 task)
            in iree_task_retire task status (set_call_status task iree_ok_status s1))
         else Some s1)"

section \<open>NOP, BARRIER and FENCE tasks\<close>

definition iree_task_nop_retire :: "task_ref \<Rightarrow> 'u sched \<Rightarrow> 'u sched option" where
  "iree_task_nop_retire task s = iree_task_retire task iree_ok_status s"

definition iree_task_barrier_initialize :: "scope_ref \<Rightarrow> task_ref list \<Rightarrow> task_ref \<Rightarrow> 'u sched \<Rightarrow> 'u sched" where
  "iree_task_barrier_initialize sc deps out_task s =
     (let s1 = iree_task_initialize IREE_TASK_TYPE_BARRIER sc out_task s;
          s2 = s1\<lparr>barriers := (barriers s1)(out_task := \<lparr>dependent_tasks = deps\<rparr>)\<rparr>
      in fold (\<lambda>d. set_header d (\<lambda>h. h\<lparr>pending_dependency_count := pending_dependency_count h + 1\<rparr>))
           deps s2)"

definition barrier_release :: "task_ref \<Rightarrow> 'u sched \<Rightarrow> 'u sched" where
  "barrier_release d s =
     (let prior = pending_dependency_count (headers s d);
          s1 = set_header d (\<lambda>h. h\<lparr>pending_dependency_count := pending_dependency_count h - 1\<rparr>) s
      in if prior = 1 then iree_task_submission_enqueue d s1 else s1)"

definition iree_task_barrier_retire :: "task_ref \<Rightarrow> 'u sched \<Rightarrow> 'u sched option" where
  "iree_task_barrier_retire task s =
     iree_task_retire task iree_ok_status
       (fold barrier_release (rev (dependent_tasks (barriers s task))) s)"

definition iree_task_fence_retire :: "task_ref \<Rightarrow> 'u sched \<Rightarrow> 'u sched option" where
  "iree_task_fence_retire task s =
     iree_task_retire task iree_ok_status (iree_task_scope_end (scope (headers s task)) s)"

text \<open>\<open>iree_task_wait_check_condition\<close> is a stub: it sets WAIT_COMPLETED and says that
  the condition holds. \<open>iree_task_wait_retire\<close> retires the task with OK.\<close>

definition iree_task_wait_check_condition :: "task_ref \<Rightarrow> 'u sched \<Rightarrow> bool \<times> 'u sched" where
  "iree_task_wait_check_condition task s =
     (True, set_header task (\<lambda>h. h\<lparr>flags := insert IREE_TASK_FLAG_WAIT_COMPLETED (flags h)\<rparr>) s)"

definition iree_task_wait_retire :: "task_ref \<Rightarrow> 'u sched \<Rightarrow> 'u sched option" where
  "iree_task_wait_retire task s = iree_task_retire task iree_ok_status s"

section \<open>DISPATCH tasks\<close>

text \<open>\<open>iree_task_dispatch_statistics_merge\<close>: the body is a TODO, the target is left as
  it is.\<close>

definition iree_task_dispatch_statistics_merge ::
  "iree_task_dispatch_statistics_t \<Rightarrow> iree_task_dispatch_statistics_t \<Rightarrow> iree_task_dispatch_statistics_t" where
  "iree_task_dispatch_statistics_merge source target = target"

definition set_dispatch :: "task_ref \<Rightarrow> (iree_task_dispatch_t \<Rightarrow> iree_task_dispatch_t) \<Rightarrow> 'u sched \<Rightarrow> 'u sched" where
  "set_dispatch t f s = s\<lparr>dispatches := (dispatches s)(t := f (dispatches s t))\<rparr>"

definition iree_task_dispatch_initialize_base ::
  "scope_ref \<Rightarrow> closure_ref \<Rightarrow> xyz \<Rightarrow> task_ref \<Rightarrow> 'u sched \<Rightarrow> 'u sched" where
  "iree_task_dispatch_initialize_base sc closure wg_size out_task s =
     set_dispatch out_task
       (\<lambda>d. d\<lparr>dispatch_closure := closure, dispatch_workgroup_size := wg_size,
              dispatch_local_memory_size := 0, dispatch_status := iree_ok_status,
              dispatch_statistics := 0\<rparr>)
       (iree_task_initialize IREE_TASK_TYPE_DISPATCH sc out_task s)"

definition iree_task_dispatch_initialize ::
  "scope_ref \<Rightarrow> closure_ref \<Rightarrow> xyz \<Rightarrow> xyz \<Rightarrow> task_ref \<Rightarrow> 'u sched \<Rightarrow> 'u sched" where
  "iree_task_dispatch_initialize sc closure wg_size wg_count out_task s =
     set_dispatch out_task (\<lambda>d. d\<lparr>workgroup_count_value := wg_count\<rparr>)
       (iree_task_dispatch_initialize_base sc closure wg_size out_task s)"

definition iree_task_dispatch_initialize_indirect ::
  "scope_ref \<Rightarrow> closure_ref \<Rightarrow> xyz \<Rightarrow> addr \<Rightarrow> task_ref \<Rightarrow> 'u sched \<Rightarrow> 'u sched" where
  "iree_task_dispatch_initialize_indirect sc closure wg_size wg_count_ptr out_task s =
     set_dispatch out_task (\<lambda>d. d\<lparr>workgroup_count_ptr := wg_count_ptr\<rparr>)
       (set_header out_task (\<lambda>h. h\<lparr>flags := insert IREE_TASK_FLAG_DISPATCH_INDIRECT (flags h)\<rparr>)
          (iree_task_dispatch_initialize_base sc closure wg_size out_task s))"

text \<open>\<open>iree_task_dispatch_retire\<close>: merge the statistics into the scope, take the status
  out of the dispatch's slot (leaving OK) and retire with it.\<close>

definition iree_task_dispatch_retire :: "task_ref \<Rightarrow> 'u sched \<Rightarrow> 'u sched option" where
  "iree_task_dispatch_retire dispatch_task s =
     (let sc = scope (headers s dispatch_task);
          s1 = s\<lparr>scopes := (scopes s)(sc := (scopes s sc)
                 \<lparr>scope_dispatch_statistics :=
                    iree_task_dispatch_statistics_merge
                      (dispatch_statistics (dispatches s dispatch_task))
                      (scope_dispatch_statistics (scopes s sc))\<rparr>)\<rparr>;
          status = dispatch_status (dispatches s1 dispatch_task);
          s2 = set_dispatch dispatch_task (\<lambda>d. d\<lparr>dispatch_status := iree_ok_status\<rparr>) s1
      in iree_task_retire dispatch_task status s2)"

section \<open>DISPATCH_SLICE tasks\<close>

definition iree_task_dispatch_slice_initialize ::
  "task_ref \<Rightarrow> xyz \<Rightarrow> xyz \<Rightarrow> xyz \<Rightarrow> task_ref \<Rightarrow> 'u sched \<Rightarrow> 'u sched" where
  "iree_task_dispatch_slice_initialize dispatch_task wg_base wg_range wg_count out_task s =
     (let s1 = iree_task_initialize IREE_TASK_TYPE_DISPATCH_SLICE
                 (scope (headers s dispatch_task)) out_task s;
          s2 = iree_task_set_completion_task out_task dispatch_task s1;
          d = dispatches s2 dispatch_task
      in s2\<lparr>slices := (slices s2)(out_task :=
           \<lparr>slice_closure = dispatch_closure d,
            slice_dispatch_status = dispatch_task,
            workgroup_base = wg_base,
            workgroup_range = wg_range,
            slice_workgroup_size = dispatch_workgroup_size d,
            slice_workgroup_count = wg_count,
            slice_local_memory_size = dispatch_local_memory_size d,
            slice_dispatch_statistics = Some dispatch_task,
            slice_statistics = 0\<rparr>)\<rparr>)"

text \<open>\<open>iree_task_dispatch_slice_allocate\<close>: a failed acquire is ignored and NULL comes
  back.\<close>

definition iree_task_dispatch_slice_allocate ::
  "task_ref \<Rightarrow> xyz \<Rightarrow> xyz \<Rightarrow> xyz \<Rightarrow> pool_ref \<Rightarrow> 'u sched \<Rightarrow> task_ref option \<times> 'u sched" where
  "iree_task_dispatch_slice_allocate dispatch_task wg_base wg_range wg_count slice_task_pool s =
     (case iree_task_pool_acquire slice_task_pool s of
        (status, slice_task, s1) \<Rightarrow>
          if \<not> iree_status_is_ok status then (None, s1)
          else
            (let t = the slice_task;
                 s2 = iree_task_dispatch_slice_initialize dispatch_task wg_base wg_range wg_count t s1
             in (Some t, set_header t (\<lambda>h. h\<lparr>pool := Some slice_task_pool\<rparr>) s2)))"

text \<open>The body of the innermost loop of \<open>iree_task_dispatch_issue_sliced\<close>; the loop
  carries the state, \<open>worker_index\<close> and \<open>worker_slice_count\<close>.\<close>

definition issue_slice ::
  "'u env \<Rightarrow> task_ref \<Rightarrow> pool_ref \<Rightarrow> xyz \<Rightarrow> nat \<Rightarrow> u32 \<Rightarrow> u32 \<Rightarrow> u32
     \<Rightarrow> 'u sched \<times> nat \<times> nat \<Rightarrow> 'u sched \<times> nat \<times> nat" where
  "issue_slice E dispatch_task slice_task_pool wg_count slices_per_worker slice_z slice_y slice_x =
     (\<lambda>(s, worker_index, worker_slice_count).
        let (count_x, count_y, count_z) = wg_count;
            base_x = slice_x * TILES_PER_SLICE_X E;
            base_y = slice_y * TILES_PER_SLICE_Y E;
            base_z = slice_z * TILES_PER_SLICE_Z E;
            range_x = min count_x (base_x + TILES_PER_SLICE_X E) - 1;
            range_y = min count_y (base_y + TILES_PER_SLICE_Y E) - 1;
            range_z = min count_z (base_z + TILES_PER_SLICE_Z E) - 1;
            (slice_task, s1) =
              iree_task_dispatch_slice_allocate dispatch_task (base_x, base_y, base_z)
                (range_x, range_y, range_z) wg_count slice_task_pool s;
            s2 = iree_task_post_batch_enqueue (worker_index mod worker_count E) slice_task s1
        in if Suc worker_slice_count \<ge> slices_per_worker
           then (s2, Suc worker_index, 0)
           else (s2, worker_index, Suc worker_slice_count))"

definition resolve_workgroup_count :: "task_ref \<Rightarrow> 'u sched \<Rightarrow> xyz" where
  "resolve_workgroup_count dispatch_task s =
     (if IREE_TASK_FLAG_DISPATCH_INDIRECT \<in> flags (headers s dispatch_task)
      then indirect s (workgroup_count_ptr (dispatches s dispatch_task))
      else workgroup_count_value (dispatches s dispatch_task))"

text \<open>\<open>iree_task_dispatch_issue_sliced\<close>. A zero tuning constant or a post batch without
  workers makes the divisions trap; the model has no result (\<open>None\<close>) there.\<close>

definition iree_task_dispatch_issue_sliced :: "'u env \<Rightarrow> task_ref \<Rightarrow> pool_ref \<Rightarrow> 'u sched \<Rightarrow> 'u sched option" where
  "iree_task_dispatch_issue_sliced E dispatch_task slice_task_pool s0 =
     (let s = set_header dispatch_task
                (\<lambda>h. h\<lparr>flags := insert IREE_TASK_FLAG_DISPATCH_RETIRE (flags h)\<rparr>) s0;
          wg_count = resolve_workgroup_count dispatch_task s;
          (count_x, count_y, count_z) = wg_count;
          total_workgroup_count = count_x * count_y * count_z
      in if total_workgroup_count = 0 then iree_task_dispatch_retire dispatch_task s
         else if TILES_PER_SLICE_X E = 0 \<or> TILES_PER_SLICE_Y E = 0 \<or> TILES_PER_SLICE_Z E = 0
                 \<or> worker_count E = 0 then None
         else
           (let slice_count_x = max 1 (count_x div TILES_PER_SLICE_X E);
                slice_count_y = max 1 (count_y div TILES_PER_SLICE_Y E);
                slice_count_z = max 1 (count_z div TILES_PER_SLICE_Z E);
                slice_count = slice_count_x * slice_count_y * slice_count_z;
                slices_per_worker = max 1 (unat slice_count div worker_count E);
                worker_offset = select_worker E (affinity_set (headers s dispatch_task));
                (s1, worker_index, worker_slice_count) =
                  for_u32 0 slice_count_z (\<lambda>slice_z.
                    for_u32 0 slice_count_y (\<lambda>slice_y.
                      for_u32 0 slice_count_x
                        (issue_slice E dispatch_task slice_task_pool wg_count slices_per_worker
                           slice_z slice_y)))
                    (s, worker_offset, 0)
            in if slice_count = 0 then iree_task_dispatch_retire dispatch_task s1
               else Some s1))"

text \<open>One tile of a slice: the closure is called with the tile context, whose statistics
  pointer is the slice's own block.\<close>

definition slice_tile :: "'u env \<Rightarrow> task_ref \<Rightarrow> xyz \<Rightarrow> 'u sched \<Rightarrow> iree_status \<times> 'u sched" where
  "slice_tile E task tile s =
     (let sl = slices s task;
          tile_context =
            \<lparr>workgroup_xyz = tile,
             tile_workgroup_size = slice_workgroup_size sl,
             tile_workgroup_count = slice_workgroup_count sl,
             tile_statistics = slice_statistics sl,
             tile_local_memory_length = slice_local_memory_size sl\<rparr>
      in case tile_fn E (slice_closure sl) tile_context (user s) of
           (status, stats, u) \<Rightarrow>
             (status,
              s\<lparr>slices := (slices s)(task := sl\<lparr>slice_statistics := stats\<rparr>),
                user := u,
                tile_log := tile_log s @ [(slice_closure sl, tile, status)]\<rparr>))"

text \<open>
  The three loops of \<open>iree_task_dispatch_slice_execute\<close>, innermost first. Each is
  \<open>for (uint32_t v = base; v <= range; ++v)\<close>: with \<open>range = 0xFFFFFFFF\<close> the counter
  wraps and the loop does not end by itself, so the result is an \<open>option\<close>. A loop
  returns the last status assigned; a failed tile leaves all three loops
  (\<open>goto abort_slice\<close>). The counter \<open>x\<close> of the innermost loop is called \<open>tx\<close>.
\<close>

partial_function (option) slice_loop_x ::
  "'u env \<Rightarrow> task_ref \<Rightarrow> u32 \<Rightarrow> u32 \<Rightarrow> u32 \<Rightarrow> u32 \<Rightarrow> 'u sched \<Rightarrow> (iree_status \<times> 'u sched) option" where
  "slice_loop_x E task range_x z y tx s =
     (if tx \<le> range_x then
        (case slice_tile E task (tx, y, z) s of
           (status, s1) \<Rightarrow>
             if \<not> iree_status_is_ok status then Some (status, s1)
             else slice_loop_x E task range_x z y (tx + 1) s1)
      else Some (iree_ok_status, s))"

partial_function (option) slice_loop_y ::
  "'u env \<Rightarrow> task_ref \<Rightarrow> u32 \<Rightarrow> u32 \<Rightarrow> u32 \<Rightarrow> u32 \<Rightarrow> u32 \<Rightarrow> 'u sched \<Rightarrow> (iree_status \<times> 'u sched) option" where
  "slice_loop_y E task base_x range_x range_y z y s =
     (if y \<le> range_y then
        Option.bind (slice_loop_x E task range_x z y base_x s)
          (\<lambda>(status, s1).
             if \<not> iree_status_is_ok status then Some (status, s1)
             else slice_loop_y E task base_x range_x range_y z (y + 1) s1)
      else Some (iree_ok_status, s))"

partial_function (option) slice_loop_z ::
  "'u env \<Rightarrow> task_ref \<Rightarrow> u32 \<Rightarrow> u32 \<Rightarrow> u32 \<Rightarrow> u32 \<Rightarrow> u32 \<Rightarrow> u32 \<Rightarrow> 'u sched \<Rightarrow> (iree_status \<times> 'u sched) option" where
  "slice_loop_z E task base_x range_x base_y range_y range_z z s =
     (if z \<le> range_z then
        Option.bind (slice_loop_y E task base_x range_x range_y z base_y s)
          (\<lambda>(status, s1).
             if \<not> iree_status_is_ok status then Some (status, s1)
             else slice_loop_z E task base_x range_x base_y range_y range_z (z + 1) s1)
      else Some (iree_ok_status, s))"

text \<open>What follows the loops (label \<open>abort_slice\<close>): the slice statistics are merged into
  the dispatch, a failure is handed to the dispatch's status slot, and the slice retires
  with OK.\<close>

definition slice_finish :: "task_ref \<Rightarrow> iree_status \<Rightarrow> 'u sched \<Rightarrow> 'u sched option" where
  "slice_finish task status s =
     (let sl = slices s task;
          s1 = (case slice_dispatch_statistics sl of
                  None \<Rightarrow> s
                | Some d \<Rightarrow>
                    set_dispatch d
                      (\<lambda>dt. dt\<lparr>dispatch_statistics :=
                         iree_task_dispatch_statistics_merge (slice_statistics sl)
                           (dispatch_statistics dt)\<rparr>) s);
          s2 = (if \<not> iree_status_is_ok status
                then set_dispatch (slice_dispatch_status sl)
                       (\<lambda>dt. dt\<lparr>dispatch_status :=
                          iree_task_try_set_status (dispatch_status dt) status\<rparr>) s1
                else s1)
      in iree_task_retire task iree_ok_status s2)"

text \<open>\<open>iree_task_dispatch_slice_execute\<close>; \<open>data_length\<close> is the length of the worker's
  local memory span.\<close>

definition iree_task_dispatch_slice_execute :: "'u env \<Rightarrow> task_ref \<Rightarrow> nat \<Rightarrow> 'u sched \<Rightarrow> 'u sched option" where
  "iree_task_dispatch_slice_execute E task data_length s =
     (let sl = slices s task
      in if unat (slice_local_memory_size sl) > data_length
         then iree_task_retire task IREE_STATUS_RESOURCE_EXHAUSTED s
         else
           (case (workgroup_base sl, workgroup_range sl) of
              ((base_x, base_y, base_z), (range_x, range_y, range_z)) \<Rightarrow>
                Option.bind (slice_loop_z E task base_x range_x base_y range_y range_z base_z s)
                  (\<lambda>(status, s1). slice_finish task status s1)))"

section \<open>DISPATCH_SHARD tasks\<close>

definition iree_task_dispatch_shard_initialize :: "task_ref \<Rightarrow> task_ref \<Rightarrow> task_ref \<Rightarrow> 'u sched \<Rightarrow> 'u sched" where
  "iree_task_dispatch_shard_initialize dispatch_task shared_state out_task s =
     (let s1 = iree_task_initialize IREE_TASK_TYPE_DISPATCH_SHARD
                 (scope (headers s dispatch_task)) out_task s;
          s2 = iree_task_set_completion_task out_task dispatch_task s1
      in s2\<lparr>shards := (shards s2)(out_task :=
           \<lparr>shard_dispatch_task = dispatch_task, shard_shared_state = shared_state\<rparr>)\<rparr>)"

definition iree_task_dispatch_shard_allocate ::
  "task_ref \<Rightarrow> task_ref \<Rightarrow> pool_ref \<Rightarrow> 'u sched \<Rightarrow> task_ref option \<times> 'u sched" where
  "iree_task_dispatch_shard_allocate dispatch_task shared_state shard_task_pool s =
     (case iree_task_pool_acquire shard_task_pool s of
        (status, shard_task, s1) \<Rightarrow>
          if \<not> iree_status_is_ok status then (None, s1)
          else
            (let t = the shard_task;
                 s2 = iree_task_dispatch_shard_initialize dispatch_task shared_state t s1
             in (Some t, set_header t (\<lambda>h. h\<lparr>pool := Some shard_task_pool\<rparr>) s2)))"

definition issue_shard :: "'u env \<Rightarrow> task_ref \<Rightarrow> pool_ref \<Rightarrow> nat \<Rightarrow> 'u sched \<times> nat \<Rightarrow> 'u sched \<times> nat" where
  "issue_shard E dispatch_task shard_task_pool i =
     (\<lambda>(s, worker_index).
        let (shard_task, s1) =
              iree_task_dispatch_shard_allocate dispatch_task dispatch_task shard_task_pool s;
            s2 = iree_task_post_batch_enqueue (worker_index mod worker_count E) shard_task s1
        in (s2, Suc worker_index))"

text \<open>\<open>iree_task_dispatch_issue_sharded\<close>. The shared shard state is a member of the
  dispatch, so a pointer to it is the dispatch's reference. An indirect workgroup count is
  copied into the inline member and the flag is toggled off.\<close>

definition iree_task_dispatch_issue_sharded :: "'u env \<Rightarrow> task_ref \<Rightarrow> pool_ref \<Rightarrow> 'u sched \<Rightarrow> 'u sched option" where
  "iree_task_dispatch_issue_sharded E dispatch_task shard_task_pool s0 =
     (let s = set_header dispatch_task
                (\<lambda>h. h\<lparr>flags := insert IREE_TASK_FLAG_DISPATCH_RETIRE (flags h)\<rparr>) s0;
          s1 = (if IREE_TASK_FLAG_DISPATCH_INDIRECT \<in> flags (headers s dispatch_task)
                then set_header dispatch_task
                       (\<lambda>h. h\<lparr>flags := flags h - {IREE_TASK_FLAG_DISPATCH_INDIRECT}\<rparr>)
                       (set_dispatch dispatch_task
                          (\<lambda>d. d\<lparr>workgroup_count_value := indirect s (workgroup_count_ptr d)\<rparr>) s)
                else s);
          (count_x, count_y, count_z) = workgroup_count_value (dispatches s1 dispatch_task);
          tiles = count_x * count_y * count_z;
          shard_count = min (unat tiles) (worker_count E);
          reservation =
            (if unat tiles < worker_count E * unat (MAX_TILES_PER_SHARD_RESERVATION E)
             then 1 else MAX_TILES_PER_SHARD_RESERVATION E);
          s2 = set_dispatch dispatch_task
                 (\<lambda>d. d\<lparr>shard_state :=
                    \<lparr>tile_index = 0, tile_count = tiles, tiles_per_reservation = reservation\<rparr>\<rparr>) s1;
          worker_offset = select_worker E (affinity_set (headers s2 dispatch_task));
          (s3, worker_index) =
            for_size_t 0 shard_count (issue_shard E dispatch_task shard_task_pool) (s2, worker_offset)
      in if shard_count = 0 then iree_task_dispatch_retire dispatch_task s3
         else Some s3)"

text \<open>
  \<open>iree_task_dispatch_shard_execute\<close> runs next to the other shards of its dispatch,
  which reserve tiles from the same atomic cursor. Its loops are therefore modelled by
  their atomic steps, so that steps of several shards can be interleaved. A shard's frame
  holds its locals: the control point, \<open>tile_base\<close>, \<open>status\<close> and the
  \<open>shard_statistics\<close> block on its stack. The control points are: about to reserve
  (the \<open>fetch_add\<close> before and at the end of the \<open>while\<close> body), inside the \<open>for\<close> loop
  with \<open>tile_index\<close> and \<open>tile_range\<close>, and past the loops (label \<open>abort_shard\<close>).
\<close>

datatype shard_ctl = AT_RESERVE | AT_TILE u32 u32 | AT_ABORT_SHARD

record shard_frame =
  ctl :: shard_ctl
  tile_base :: u32
  frame_status :: iree_status
  shard_statistics :: iree_task_dispatch_statistics_t

definition shard_frame_init :: shard_frame where
  "shard_frame_init =
     \<lparr>ctl = AT_RESERVE, tile_base = 0, frame_status = iree_ok_status, shard_statistics = 0\<rparr>"

text \<open>The decomposition of a tile index: \<open>x = i % count_x\<close>, then \<open>i /= count_x\<close>,
  \<open>y = i % count_y\<close>, then \<open>i /= count_y\<close>, \<open>z = i\<close>.\<close>

definition tile_xyz :: "u32 \<Rightarrow> u32 \<Rightarrow> u32 \<Rightarrow> xyz" where
  "tile_xyz count_x count_y i = (i mod count_x, (i div count_x) mod count_y, (i div count_x) div count_y)"

text \<open>One atomic step of a shard's loops. Reserving is the \<open>fetch_add\<close> on the shared
  cursor followed by the \<open>while\<close> test. A zero \<open>count_x\<close> or \<open>count_y\<close> makes the tile
  decomposition trap: no step (\<open>None\<close>). A frame past the loops takes no step.\<close>

definition shard_loop_step :: "'u env \<Rightarrow> task_ref \<Rightarrow> shard_frame \<Rightarrow> 'u sched \<Rightarrow> (shard_frame \<times> 'u sched) option" where
  "shard_loop_step E task fr s =
     (let d = shard_dispatch_task (shards s task);
          sh = shard_shared_state (shards s task);
          st = shard_state (dispatches s sh)
      in case ctl fr of
           AT_RESERVE \<Rightarrow>
             (let base = tile_index st;
                  s1 = set_dispatch sh
                         (\<lambda>dt. dt\<lparr>shard_state := (shard_state dt)
                            \<lparr>tile_index := tile_index (shard_state dt) + tiles_per_reservation st\<rparr>\<rparr>) s
              in if base < tile_count st
                 then Some (fr\<lparr>ctl := AT_TILE base (min (base + tiles_per_reservation st) (tile_count st)),
                               tile_base := base\<rparr>, s1)
                 else Some (fr\<lparr>ctl := AT_ABORT_SHARD, tile_base := base\<rparr>, s1))
         | AT_TILE tile_i tile_range \<Rightarrow>
             if tile_i < tile_range then
               (case workgroup_count_value (dispatches s d) of
                  (count_x, count_y, count_z) \<Rightarrow>
                    if count_x = 0 \<or> count_y = 0 then None
                    else
                      (let tile_context =
                             \<lparr>workgroup_xyz = tile_xyz count_x count_y tile_i,
                              tile_workgroup_size = dispatch_workgroup_size (dispatches s d),
                              tile_workgroup_count = (count_x, count_y, count_z),
                              tile_statistics = shard_statistics fr,
                              tile_local_memory_length = dispatch_local_memory_size (dispatches s d)\<rparr>
                       in case tile_fn E (dispatch_closure (dispatches s d)) tile_context (user s) of
                            (status, stats, u) \<Rightarrow>
                              (let s1 = s\<lparr>user := u,
                                          tile_log := tile_log s @
                                            [(dispatch_closure (dispatches s d),
                                              tile_xyz count_x count_y tile_i, status)]\<rparr>
                               in if \<not> iree_status_is_ok status
                                  then Some (fr\<lparr>ctl := AT_ABORT_SHARD, frame_status := status,
                                                shard_statistics := stats\<rparr>, s1)
                                  else Some (fr\<lparr>ctl := AT_TILE (tile_i + 1) tile_range,
                                                frame_status := status,
                                                shard_statistics := stats\<rparr>, s1))))
             else Some (fr\<lparr>ctl := AT_RESERVE\<rparr>, s)
         | AT_ABORT_SHARD \<Rightarrow> None)"

text \<open>A shard running on its own: steps until it is past the loops. The cursor can wrap
  around and a trap ends the run, so the result is an \<open>option\<close>.\<close>

partial_function (option) shard_loop :: "'u env \<Rightarrow> task_ref \<Rightarrow> shard_frame \<Rightarrow> 'u sched \<Rightarrow> (shard_frame \<times> 'u sched) option" where
  "shard_loop E task fr s =
     (if ctl fr = AT_ABORT_SHARD then Some (fr, s)
      else Option.bind (shard_loop_step E task fr s) (\<lambda>(fr1, s1). shard_loop E task fr1 s1))"

text \<open>What follows the loops (label \<open>abort_shard\<close>).\<close>

definition shard_finish :: "task_ref \<Rightarrow> shard_frame \<Rightarrow> 'u sched \<Rightarrow> 'u sched option" where
  "shard_finish task fr s =
     (let d = shard_dispatch_task (shards s task);
          s1 = set_dispatch d
                 (\<lambda>dt. dt\<lparr>dispatch_statistics :=
                    iree_task_dispatch_statistics_merge (shard_statistics fr)
                      (dispatch_statistics dt)\<rparr>) s;
          s2 = (if \<not> iree_status_is_ok (frame_status fr)
                then set_dispatch d
                       (\<lambda>dt. dt\<lparr>dispatch_status :=
                          iree_task_try_set_status (dispatch_status dt) (frame_status fr)\<rparr>) s1
                else s1)
      in iree_task_retire task iree_ok_status s2)"

definition iree_task_dispatch_shard_execute :: "'u env \<Rightarrow> task_ref \<Rightarrow> nat \<Rightarrow> 'u sched \<Rightarrow> 'u sched option" where
  "iree_task_dispatch_shard_execute E task data_length s =
     (let d = shard_dispatch_task (shards s task)
      in if unat (dispatch_local_memory_size (dispatches s d)) > data_length
         then iree_task_retire task IREE_STATUS_RESOURCE_EXHAUSTED s
         else Option.bind (shard_loop E task shard_frame_init s)
                (\<lambda>(fr, s1). shard_finish task fr s1))"



section \<open>The worker\<close>

text \<open>Modelled from the spec: what a worker is given besides the task it takes: the
  length of its local memory span, the issue mode the producer chose for each dispatch,
  and the pools slices and shards are allocated from.\<close>

record worker_t =
  local_memory_length :: nat
  dispatch_sliced :: "task_ref \<Rightarrow> bool"
  slice_task_pool :: pool_ref
  shard_task_pool :: pool_ref

text \<open>Modelled from the spec: the worker that takes a ready task and executes it
  (executor.c and worker.c). A scope with a non-OK permanent status still drains the graph
  via discard, and every future task in the scope is cleaned up as aborted; a fence
  observing a failed scope still retires normally. So a task whose scope has failed, a
  fence apart, is discarded with a local worklist that is then drained. Any other task is
  executed as its type says: NOP, BARRIER and FENCE retire, a CALL executes, a WAIT
  checks its condition and retires when it is satisfied, a DISPATCH is issued in its mode
  when first reached and retired when it comes back with DISPATCH_RETIRE set, a slice or
  shard executes with the worker's local memory.\<close>

definition worker_execute :: "'u env \<Rightarrow> worker_t \<Rightarrow> task_ref \<Rightarrow> 'u sched \<Rightarrow> 'u sched option" where
  "worker_execute E w task s =
     (let h = headers s task
      in if \<not> iree_status_is_ok (permanent_status (scopes s (scope h)))
            \<and> task_type h \<noteq> IREE_TASK_TYPE_FENCE
         then (case iree_task_discard task [] s of (wl, s1) \<Rightarrow> iree_task_list_discard wl s1)
         else
           (case task_type h of
              IREE_TASK_TYPE_NOP \<Rightarrow> iree_task_nop_retire task s
            | IREE_TASK_TYPE_CALL \<Rightarrow> iree_task_call_execute E task s
            | IREE_TASK_TYPE_BARRIER \<Rightarrow> iree_task_barrier_retire task s
            | IREE_TASK_TYPE_FENCE \<Rightarrow> iree_task_fence_retire task s
            | IREE_TASK_TYPE_WAIT \<Rightarrow>
                (case iree_task_wait_check_condition task s of
                   (completed, s1) \<Rightarrow> if completed then iree_task_wait_retire task s1 else Some s1)
            | IREE_TASK_TYPE_DISPATCH \<Rightarrow>
                if IREE_TASK_FLAG_DISPATCH_RETIRE \<in> flags h then iree_task_dispatch_retire task s
                else if dispatch_sliced w task
                  then iree_task_dispatch_issue_sliced E task (slice_task_pool w) s
                  else iree_task_dispatch_issue_sharded E task (shard_task_pool w) s
            | IREE_TASK_TYPE_DISPATCH_SLICE \<Rightarrow>
                iree_task_dispatch_slice_execute E task (local_memory_length w) s
            | IREE_TASK_TYPE_DISPATCH_SHARD \<Rightarrow>
                iree_task_dispatch_shard_execute E task (local_memory_length w) s))"

text \<open>Modelled from the spec: what workers do over time, one ready task after the other,
  each with some worker's resources.\<close>

definition worker_steps :: "'u env \<Rightarrow> 'u sched \<Rightarrow> 'u sched \<Rightarrow> bool" where
  "worker_steps E = (\<lambda>s s'. \<exists>w task. worker_execute E w task s = Some s')\<^sup>*\<^sup>*"

section \<open>Concrete states for the worked examples\<close>

text \<open>Memory with every field zero, no free pool slot, empty queues and logs.\<close>

definition sched_zero :: "unit sched" where
  "sched_zero =
     \<lparr>headers = (\<lambda>_. \<lparr>scope = 0, affinity_set = 0, task_type = IREE_TASK_TYPE_NOP, flags = {},
                       pending_dependency_count = 0, completion_task = None,
                       cleanup_fn = None, pool = None\<rparr>),
      calls = (\<lambda>_. \<lparr>call_closure = 0, call_status = IREE_STATUS_OK\<rparr>),
      barriers = (\<lambda>_. \<lparr>dependent_tasks = []\<rparr>),
      dispatches = (\<lambda>_. \<lparr>dispatch_closure = 0, dispatch_workgroup_size = (0, 0, 0),
                           workgroup_count_value = (0, 0, 0), workgroup_count_ptr = 0,
                           dispatch_local_memory_size = 0, dispatch_status = IREE_STATUS_OK,
                           dispatch_statistics = 0,
                           shard_state = \<lparr>tile_index = 0, tile_count = 0, tiles_per_reservation = 0\<rparr>\<rparr>),
      slices = (\<lambda>_. \<lparr>slice_closure = 0, slice_dispatch_status = 0, workgroup_base = (0, 0, 0),
                       workgroup_range = (0, 0, 0), slice_workgroup_size = (0, 0, 0),
                       slice_workgroup_count = (0, 0, 0), slice_local_memory_size = 0,
                       slice_dispatch_statistics = None, slice_statistics = 0\<rparr>),
      shards = (\<lambda>_. \<lparr>shard_dispatch_task = 0, shard_shared_state = 0\<rparr>),
      scopes = (\<lambda>_. \<lparr>permanent_status = IREE_STATUS_OK, outstanding = 0,
                       scope_dispatch_statistics = 0\<rparr>),
      pools = (\<lambda>_. []),
      indirect = (\<lambda>_. (0, 0, 0)),
      pending_submission = [],
      post_batch = [],
      cleanup_log = [],
      call_log = [],
      tile_log = [],
      user = ()\<rparr>"

text \<open>A configuration: closures that succeed, a dispatch closure that records one unit
  of statistics per tile, eight tiles per slice along x, four workers.\<close>

definition env_example :: "unit env" where
  "env_example =
     \<lparr>call_fn = (\<lambda>closure task s. (IREE_STATUS_OK, s)),
      tile_fn = (\<lambda>closure ctx u. (IREE_STATUS_OK, tile_statistics ctx + 1, u)),
      TILES_PER_SLICE_X = 8,
      TILES_PER_SLICE_Y = 1,
      TILES_PER_SLICE_Z = 1,
      MAX_TILES_PER_SHARD_RESERVATION = 8,
      worker_count = 4,
      select_worker = (\<lambda>affinity. 0)\<rparr>"

text \<open>Dispatch 5 asks for 64 bytes of local memory; task 6 is its only slice, one tile.\<close>

definition sched_slice_memory :: "unit sched" where
  "sched_slice_memory =
     iree_task_dispatch_slice_initialize 5 (0, 0, 0) (0, 0, 0) (1, 1, 1) 6
       (set_dispatch 5 (\<lambda>d. d\<lparr>dispatch_local_memory_size := 64\<rparr>)
          (iree_task_dispatch_initialize 0 0 (1, 1, 1) (1, 1, 1) 5 sched_zero))"

text \<open>An indirect dispatch 5 whose workgroup count in memory is (0,0,0), completing into
  the CALL task 4. In \<open>sched_zero_dispatch_last\<close> the dispatch is the only dependency of
  task 4; in \<open>sched_zero_dispatch_join\<close> task 4 also waits for task 3.\<close>

definition sched_zero_dispatch_last :: "unit sched" where
  "sched_zero_dispatch_last =
     iree_task_set_completion_task 5 4
       (iree_task_set_cleanup_fn 5 (Some 7)
          (iree_task_dispatch_initialize_indirect 0 0 (1, 1, 1) 0 5
             (iree_task_call_initialize 0 0 4
                (iree_task_call_initialize 0 0 3 sched_zero))))"

definition sched_zero_dispatch_join :: "unit sched" where
  "sched_zero_dispatch_join = iree_task_set_completion_task 3 4 sched_zero_dispatch_last"

text \<open>A CALL closure (closure 1) that, the first time it runs, enqueues the nested CALL
  task 9 completing into its own task and fails with INTERNAL; every other closure
  succeeds. Task 2 of \<open>sched_call_nested\<close> carries closure 1 and the cleanup function 7.\<close>

definition env_nested :: "unit env" where
  "env_nested =
     env_example\<lparr>call_fn :=
       (\<lambda>closure task s.
          if closure = 1 \<and> call_status (calls s task) = IREE_STATUS_OK
          then (IREE_STATUS_INTERNAL,
                iree_task_set_completion_task 9 task (iree_task_call_initialize 0 0 9 s))
          else (IREE_STATUS_OK, s))\<rparr>"

definition sched_call_nested :: "unit sched" where
  "sched_call_nested =
     iree_task_set_cleanup_fn 2 (Some 7) (iree_task_call_initialize 0 1 2 sched_zero)"

text \<open>Dispatch 5 over a 3x1x1 grid with pool slot 6 free, as a producer sets it up; issued
  in slice mode with \<open>env_example\<close> it gets the one slice 6 covering the row, and the
  slice is given the cleanup function 7.\<close>

definition sched_row :: "unit sched" where
  "sched_row =
     (iree_task_dispatch_initialize 0 0 (1, 1, 1) (3, 1, 1) 5 sched_zero)\<lparr>pools := (\<lambda>_. [6])\<rparr>"

definition sched_slice_row :: "unit sched" where
  "sched_slice_row =
     iree_task_set_cleanup_fn 6 (Some 7)
       (the (iree_task_dispatch_issue_sliced env_example 5 0 sched_row))"

text \<open>A dispatch closure that fails with INTERNAL on tile (1,0,0) and records one unit of
  statistics on every other tile.\<close>

definition env_tile_fail :: "unit env" where
  "env_tile_fail =
     env_example\<lparr>tile_fn :=
       (\<lambda>closure ctx u.
          if workgroup_xyz ctx = (1, 0, 0) then (IREE_STATUS_INTERNAL, tile_statistics ctx, u)
          else (IREE_STATUS_OK, tile_statistics ctx + 1, u))\<rparr>"

text \<open>Dispatch 5 over a 9x1x1 grid, with free pool slots.\<close>

definition sched_nine :: "unit sched" where
  "sched_nine =
     (iree_task_dispatch_initialize 0 0 (1, 1, 1) (9, 1, 1) 5 sched_zero)\<lparr>pools := (\<lambda>_. [6, 10, 11])\<rparr>"

text \<open>Four CALL tasks with the cleanup function 7: tasks 2 and 3 complete into task 4, and
  task 4 completes into task 8. Task 2 carries closure 1, which \<open>env_call_fail\<close> lets fail
  with INTERNAL; the closures of the others succeed.\<close>

definition env_call_fail :: "unit env" where
  "env_call_fail =
     env_example\<lparr>call_fn :=
       (\<lambda>closure task s. if closure = 1 then (IREE_STATUS_INTERNAL, s) else (IREE_STATUS_OK, s))\<rparr>"

definition sched_chain :: "unit sched" where
  "sched_chain =
     iree_task_set_completion_task 4 8
       (iree_task_set_completion_task 3 4
          (iree_task_set_completion_task 2 4
             (iree_task_set_cleanup_fn 8 (Some 7) (iree_task_call_initialize 0 0 8
                (iree_task_set_cleanup_fn 4 (Some 7) (iree_task_call_initialize 0 0 4
                   (iree_task_set_cleanup_fn 3 (Some 7) (iree_task_call_initialize 0 0 3
                      (iree_task_set_cleanup_fn 2 (Some 7) (iree_task_call_initialize 0 1 2
                         sched_zero))))))))))"











text \<open>A line of three CALL tasks in scope 0, each with cleanup function 7: task 2
  completes into task 4 and task 4 into task 8.\<close>

definition sched_line :: "unit sched" where
  "sched_line =
     iree_task_set_completion_task 4 8
       (iree_task_set_completion_task 2 4
          (iree_task_set_cleanup_fn 8 (Some 7) (iree_task_call_initialize 0 0 8
             (iree_task_set_cleanup_fn 4 (Some 7) (iree_task_call_initialize 0 0 4
                (iree_task_set_cleanup_fn 2 (Some 7) (iree_task_call_initialize 0 1 2
                   sched_zero)))))))"

text \<open>\<open>sched_chain\<close> with one more CALL task, 9, in scope 1.\<close>

definition sched_aside :: "unit sched" where
  "sched_aside = iree_task_call_initialize 1 0 9 sched_chain"

text \<open>A worker without local memory; dispatches are issued in slice mode.\<close>

definition worker_example :: worker_t where
  "worker_example =
     \<lparr>local_memory_length = 0, dispatch_sliced = (\<lambda>task. True), slice_task_pool = 0,
      shard_task_pool = 0\<rparr>"

section \<open>Relations used to state what a function leaves alone\<close>

text \<open>Discarding tasks only runs cleanups, releases pool slots and ends scopes.\<close>

definition discard_rel :: "'u sched \<Rightarrow> 'u sched \<Rightarrow> bool" where
  "discard_rel s s' =
     (headers s' = headers s \<and> calls s' = calls s \<and> barriers s' = barriers s
      \<and> dispatches s' = dispatches s \<and> slices s' = slices s \<and> shards s' = shards s
      \<and> indirect s' = indirect s \<and> pending_submission s' = pending_submission s
      \<and> post_batch s' = post_batch s \<and> call_log s' = call_log s \<and> tile_log s' = tile_log s
      \<and> user s' = user s
      \<and> (\<forall>sc. permanent_status (scopes s' sc) = permanent_status (scopes s sc))
      \<and> (\<exists>more. cleanup_log s' = cleanup_log s @ more))"

text \<open>Retiring a task touches headers, scopes, pools, the cleanup log and the pending
  submission, and nothing else.\<close>

definition retire_rel :: "'u sched \<Rightarrow> 'u sched \<Rightarrow> bool" where
  "retire_rel s s' =
     (calls s' = calls s \<and> barriers s' = barriers s
      \<and> dispatches s' = dispatches s \<and> slices s' = slices s \<and> shards s' = shards s
      \<and> indirect s' = indirect s
      \<and> post_batch s' = post_batch s \<and> call_log s' = call_log s \<and> tile_log s' = tile_log s
      \<and> user s' = user s)"

text \<open>The tasks \<open>iree_task_discard\<close> pushes for a task, in the order they end up at the
  front of the worklist: a barrier's dependents, last listed first, then the completion
  task. These are the edges of the task graph; \<open>downstream s c t\<close> says that \<open>t\<close> is \<open>c\<close> or
  can be reached from \<open>c\<close> along them.\<close>

definition task_dependents :: "'u sched \<Rightarrow> task_ref \<Rightarrow> task_ref list" where
  "task_dependents s task =
     (if task_type (headers s task) = IREE_TASK_TYPE_BARRIER
      then rev (dependent_tasks (barriers s task)) else [])
     @ (case completion_task (headers s task) of None \<Rightarrow> [] | Some c \<Rightarrow> [c])"

definition downstream :: "'u sched \<Rightarrow> task_ref \<Rightarrow> task_ref \<Rightarrow> bool" where
  "downstream s = (\<lambda>u v. v \<in> set (task_dependents s u))\<^sup>*\<^sup>*"

text \<open>The task graph of \<open>s\<close> has no cycle: every edge leads to a task of lower rank.\<close>

definition task_graph_ranked :: "'u sched \<Rightarrow> (task_ref \<Rightarrow> nat) \<Rightarrow> bool" where
  "task_graph_ranked s rank = (\<forall>u v. v \<in> set (task_dependents s u) \<longrightarrow> rank v < rank u)"

text \<open>The entries the cleanup log gets when the tasks of \<open>T\<close> are cleaned up with ABORTED
  (a task without a cleanup function leaves none).\<close>

definition aborted_entries :: "'u sched \<Rightarrow> task_ref set \<Rightarrow> (cleanup_ref \<times> task_ref \<times> iree_status_code) set" where
  "aborted_entries s T = {(fn, t, IREE_STATUS_ABORTED) | fn t. t \<in> T \<and> cleanup_fn (headers s t) = Some fn}"

text \<open>A dispatch \<open>d\<close> that went from \<open>s\<close> to \<open>s'\<close> by retiring with OK and without
  creating work: nothing was posted, no slice or shard was written, no pool slot was
  taken, no closure ran, the scope did not fail, the cleanup function saw OK, and the
  completion task lost one pending dependency and was enqueued if that was its last.\<close>

definition retired_ok_without_work :: "task_ref \<Rightarrow> 'u sched \<Rightarrow> 'u sched \<Rightarrow> bool" where
  "retired_ok_without_work d s s' =
     (post_batch s' = post_batch s \<and> slices s' = slices s \<and> shards s' = shards s
      \<and> tile_log s' = tile_log s \<and> call_log s' = call_log s
      \<and> (\<forall>q. pool (headers s d) \<noteq> Some q \<longrightarrow> pools s' q = pools s q)
      \<and> (\<forall>sc. permanent_status (scopes s' sc) = permanent_status (scopes s sc))
      \<and> cleanup_log s' = cleanup_log s @
          (case cleanup_fn (headers s d) of None \<Rightarrow> [] | Some fn \<Rightarrow> [(fn, d, IREE_STATUS_OK)])
      \<and> (case completion_task (headers s d) of
            None \<Rightarrow> pending_submission s' = pending_submission s
          | Some c \<Rightarrow>
              pending_dependency_count (headers s' c) = pending_dependency_count (headers s c) - 1
              \<and> pending_submission s' =
                  (if pending_dependency_count (headers s c) = 1
                   then pending_submission s @ [c] else pending_submission s)))"

text \<open>The tile loops of a slice went from \<open>s\<close> to \<open>s1\<close> and left \<open>status\<close>: they only
  touched the slice's own statistics block, the user state and the tile log, and the log
  grew by tiles that returned OK followed, exactly when \<open>status\<close> is a failure, by one
  last tile that returned \<open>status\<close>.\<close>

definition tiles_ran :: "task_ref \<Rightarrow> iree_status \<Rightarrow> 'u sched \<Rightarrow> 'u sched \<Rightarrow> bool" where
  "tiles_ran task status s s1 =
     (headers s1 = headers s \<and> calls s1 = calls s \<and> barriers s1 = barriers s
      \<and> dispatches s1 = dispatches s \<and> shards s1 = shards s \<and> scopes s1 = scopes s
      \<and> pools s1 = pools s \<and> indirect s1 = indirect s
      \<and> pending_submission s1 = pending_submission s \<and> post_batch s1 = post_batch s
      \<and> cleanup_log s1 = cleanup_log s \<and> call_log s1 = call_log s
      \<and> (\<exists>stats. slices s1 = (slices s)(task := (slices s task)\<lparr>slice_statistics := stats\<rparr>))
      \<and> (\<exists>oks failed.
            tile_log s1 = tile_log s @ oks @ failed
            \<and> (\<forall>e \<in> set oks. snd (snd e) = IREE_STATUS_OK)
            \<and> (if iree_status_is_ok status then failed = []
                else \<exists>tile. failed = [(slice_closure (slices s task), tile, status)])))"








text \<open>No scope that has failed in \<open>s\<close> is OK again in \<open>s'\<close>.\<close>

definition keeps_failures :: "'u sched \<Rightarrow> 'u sched \<Rightarrow> bool" where
  "keeps_failures s s' =
     (\<forall>sc. \<not> iree_status_is_ok (permanent_status (scopes s sc))
        \<longrightarrow> \<not> iree_status_is_ok (permanent_status (scopes s' sc)))"

text \<open>A CALL closure may do anything to the scheduler state; what is asked of the closures
  here is that they do not reset the permanent status of a failed scope.\<close>

definition closures_keep_failures :: "'u env \<Rightarrow> bool" where
  "closures_keep_failures E =
     (\<forall>closure task s. keeps_failures s (snd (call_fn E closure task s)))"

section \<open>What discarding and retiring leave alone\<close>

lemma discard_rel_refl: "discard_rel s s"
  by (simp add: discard_rel_def)

lemma discard_rel_trans: "discard_rel s s1 \<Longrightarrow> discard_rel s1 s2 \<Longrightarrow> discard_rel s s2"
  unfolding discard_rel_def by auto

lemma cleanup_rel: "discard_rel s (iree_task_cleanup task code s)"
  by (simp add: discard_rel_def iree_task_cleanup_def iree_task_pool_release_def Let_def
      split: option.splits)

lemma scope_end_rel: "discard_rel s (iree_task_scope_end sc s)"
  by (simp add: discard_rel_def iree_task_scope_end_def)

lemma discard_step_rel: "iree_task_discard task wl s = (wl', s') \<Longrightarrow> discard_rel s s'"
  unfolding iree_task_discard_def Let_def
  by (auto intro: discard_rel_trans [OF scope_end_rel cleanup_rel] cleanup_rel)

lemma list_discard_rel:
  assumes "iree_task_list_discard wl s = Some s'"
  shows "discard_rel s s'"
proof (rule iree_task_list_discard.raw_induct [where P = "\<lambda>wl s s'. discard_rel s s'", OF _ assms], goal_cases)
  case (1 f wl s s')
  show ?case
  proof (cases wl)
    case Nil
    with 1(2) show ?thesis by (simp add: discard_rel_refl)
  next
    case (Cons task rest)
    obtain wl1 s1 where d: "iree_task_discard task rest s = (wl1, s1)"
      by (cases "iree_task_discard task rest s")
    from 1(2) have "f wl1 s1 = Some s'" unfolding Cons by (simp add: d)
    then have "discard_rel s1 s'" by (rule 1(1))
    with discard_step_rel [OF d] show ?thesis by (rule discard_rel_trans)
  qed
qed

lemma discard_rel_retire_rel: "discard_rel s s' \<Longrightarrow> retire_rel s s'"
  by (simp add: discard_rel_def retire_rel_def)

lemma retire_rel_trans: "retire_rel s s1 \<Longrightarrow> retire_rel s1 s2 \<Longrightarrow> retire_rel s s2"
  unfolding retire_rel_def by auto

lemma set_header_rel: "retire_rel s (set_header t f s)"
  by (simp add: retire_rel_def set_header_def)

lemma retire_rel:
  assumes "iree_task_retire task status s = Some s'"
  shows "retire_rel s s'"
proof -
  define s2 where "s2 = (case completion_task (headers s task) of
      None \<Rightarrow> set_header task (\<lambda>h. h\<lparr>completion_task := None\<rparr>) s
    | Some c \<Rightarrow> set_header c (\<lambda>h. h\<lparr>pending_dependency_count := pending_dependency_count h - 1\<rparr>)
        (set_header task (\<lambda>h. h\<lparr>completion_task := None\<rparr>) s))"
  have r2: "retire_rel s s2"
    by (simp add: s2_def retire_rel_def set_header_def split: option.splits)
  show ?thesis
  proof (cases "iree_status_is_ok status")
    case True
    with assms have "s' = iree_task_cleanup task IREE_STATUS_OK s2
        \<or> s' = iree_task_submission_enqueue (the (completion_task (headers s task)))
                 (iree_task_cleanup task IREE_STATUS_OK s2)"
      by (auto simp: iree_task_retire_def Let_def s2_def split: option.splits if_splits)
    then have "retire_rel s2 s'"
      using discard_rel_retire_rel [OF cleanup_rel [of s2 task IREE_STATUS_OK]]
      by (auto simp: retire_rel_def iree_task_submission_enqueue_def)
    with r2 show ?thesis by (rule retire_rel_trans)
  next
    case False
    define s4 where "s4 = iree_task_cleanup task IREE_STATUS_ABORTED
        (iree_task_scope_fail (scope (headers s2 task)) task status s2)"
    have r4: "retire_rel s2 s4"
      using discard_rel_retire_rel [OF cleanup_rel, of "iree_task_scope_fail (scope (headers s2 task)) task status s2" task IREE_STATUS_ABORTED]
      by (simp add: s4_def retire_rel_def iree_task_scope_fail_def)
    from assms False have
      "(\<exists>c wl s5. iree_task_discard c [] s4 = (wl, s5) \<and> iree_task_list_discard wl s5 = Some s')
       \<or> s' = s4
       \<or> (\<exists>c. s' = set_header c (\<lambda>h. h\<lparr>flags := insert IREE_TASK_FLAG_ABORTED (flags h)\<rparr>) s4)"
      by (auto simp: iree_task_retire_def Let_def s2_def s4_def split: option.splits if_splits prod.splits)
    then have "retire_rel s4 s'"
    proof (elim disjE exE conjE)
      fix c wl s5
      assume d: "iree_task_discard c [] s4 = (wl, s5)" and l: "iree_task_list_discard wl s5 = Some s'"
      from discard_step_rel [OF d] list_discard_rel [OF l] have "discard_rel s4 s'"
        by (rule discard_rel_trans)
      then show ?thesis by (rule discard_rel_retire_rel)
    next
      assume "s' = s4"
      then show ?thesis by (simp add: retire_rel_def)
    next
      fix c
      assume "s' = set_header c (\<lambda>h. h\<lparr>flags := insert IREE_TASK_FLAG_ABORTED (flags h)\<rparr>) s4"
      then show ?thesis by (simp add: set_header_rel)
    qed
    with retire_rel_trans [OF r2 r4] show ?thesis by (rule retire_rel_trans)
  qed
qed

section \<open>Draining a discard worklist\<close>

lemma discard_worklist:
  "fst (iree_task_discard task wl s) = task_dependents s task @ wl"
  by (simp add: iree_task_discard_def task_dependents_def Let_def fold_Cons_rev
      split: option.splits)

lemma discard_log:
  "cleanup_log (snd (iree_task_discard task wl s)) = cleanup_log s @
     (case cleanup_fn (headers s task) of None \<Rightarrow> [] | Some fn \<Rightarrow> [(fn, task, IREE_STATUS_ABORTED)])"
  by (simp add: iree_task_discard_def Let_def iree_task_cleanup_def iree_task_pool_release_def
      iree_task_scope_end_def split: option.splits)

lemma discard_rel_graph:
  assumes "discard_rel s s'"
  shows "task_dependents s' = task_dependents s" "downstream s' = downstream s"
    "aborted_entries s' = aborted_entries s"
proof -
  from assms have h: "headers s' = headers s" "barriers s' = barriers s"
    by (simp_all add: discard_rel_def)
  show a: "task_dependents s' = task_dependents s"
    by (rule ext) (simp add: task_dependents_def h)
  show "downstream s' = downstream s"
    by (simp add: downstream_def a)
  show "aborted_entries s' = aborted_entries s"
    by (rule ext) (simp add: aborted_entries_def h)
qed

lemma downstream_unfold:
  "{t. downstream s u t} = insert u {t. \<exists>v \<in> set (task_dependents s u). downstream s v t}"
  unfolding downstream_def
  by (auto intro: converse_rtranclp_into_rtranclp elim: converse_rtranclpE)

lemma aborted_entries_insert:
  "aborted_entries s (insert u T) =
     set (case cleanup_fn (headers s u) of None \<Rightarrow> [] | Some fn \<Rightarrow> [(fn, u, IREE_STATUS_ABORTED)])
     \<union> aborted_entries s T"
  by (auto simp: aborted_entries_def split: option.splits)

lemma list_discard_log:
  assumes "iree_task_list_discard wl s = Some s'"
  shows "\<exists>more. cleanup_log s' = cleanup_log s @ more
           \<and> set more = aborted_entries s {t. \<exists>u \<in> set wl. downstream s u t}"
  using assms
proof (induction rule: iree_task_list_discard.raw_induct [rotated 1, consumes 1])
  case (1 f wl s s')
  show ?case
  proof (cases wl)
    case Nil
    with 1(2) show ?thesis by (simp add: aborted_entries_def)
  next
    case (Cons u rest)
    obtain wl1 s1 where d: "iree_task_discard u rest s = (wl1, s1)"
      by (cases "iree_task_discard u rest s")
    from discard_worklist [of u rest s] d have wl1: "wl1 = task_dependents s u @ rest"
      by simp
    from discard_log [of u rest s] d have lg1: "cleanup_log s1 = cleanup_log s @
        (case cleanup_fn (headers s u) of None \<Rightarrow> [] | Some fn \<Rightarrow> [(fn, u, IREE_STATUS_ABORTED)])"
      by simp
    note g = discard_rel_graph [OF discard_step_rel [OF d]]
    from 1(2) have "f wl1 s1 = Some s'" unfolding Cons by (simp add: d)
    from 1(1) [OF this] obtain more where
      m1: "cleanup_log s' = cleanup_log s1 @ more"
      and m2: "set more = aborted_entries s {t. \<exists>v \<in> set wl1. downstream s v t}"
      unfolding g by (elim exE conjE)
    let ?own = "case cleanup_fn (headers s u) of None \<Rightarrow> [] | Some fn \<Rightarrow> [(fn, u, IREE_STATUS_ABORTED)]"
    have split: "{t. \<exists>v \<in> set wl. downstream s v t} = insert u {t. \<exists>v \<in> set wl1. downstream s v t}"
      unfolding Cons wl1 using downstream_unfold [of s u] by auto
    have "cleanup_log s' = cleanup_log s @ (?own @ more)"
      by (simp add: m1 lg1)
    moreover have "set (?own @ more) = aborted_entries s {t. \<exists>u \<in> set wl. downstream s u t}"
      unfolding split aborted_entries_insert by (simp add: m2)
    ultimately show ?thesis
      by (intro exI [where x = "?own @ more"] conjI)
  qed
qed

lemma list_discard_returns:
  assumes dag: "\<And>u v. v \<in> set (task_dependents s0 u) \<Longrightarrow> rank v < (rank u :: nat)"
  shows "discard_rel s0 s \<Longrightarrow> \<exists>s'. iree_task_list_discard wl s = Some s'"
  using wf_mult [OF wf_measure [of rank]]
proof (induction "mset wl" arbitrary: wl s rule: wf_induct_rule)
  case less
  show ?case
  proof (cases wl)
    case Nil
    then show ?thesis by (simp add: iree_task_list_discard.simps)
  next
    case (Cons u rest)
    obtain wl1 s1 where d: "iree_task_discard u rest s = (wl1, s1)"
      by (cases "iree_task_discard u rest s")
    from discard_worklist [of u rest s] d have wl1: "wl1 = task_dependents s u @ rest"
      by simp
    have deps: "task_dependents s u = task_dependents s0 u"
      using discard_rel_graph(1) [OF less.prems] by simp
    have "(mset rest + mset (task_dependents s u), mset rest + {#u#}) \<in> mult (measure rank)"
      by (rule one_step_implies_mult) (auto simp: deps dest: dag)
    then have "(mset wl1, mset wl) \<in> mult (measure rank)"
      by (simp add: wl1 Cons ac_simps)
    moreover have "discard_rel s0 s1"
      using less.prems discard_step_rel [OF d] by (rule discard_rel_trans)
    ultimately obtain s' where "iree_task_list_discard wl1 s1 = Some s'"
      using less.hyps by blast
    then show ?thesis
      by (subst iree_task_list_discard.simps) (simp add: Cons d)
  qed
qed

lemma downstream_rank:
  assumes dag: "\<And>u v. v \<in> set (task_dependents s u) \<Longrightarrow> rank v < (rank u :: nat)"
    and d: "downstream s c t"
  shows "rank t \<le> rank c"
  using d unfolding downstream_def
proof (induction rule: rtranclp_induct)
  case base
  show ?case by simp
next
  case (step y z)
  from dag [OF step(2)] step(3) show ?case by simp
qed

lemma downstream_without_edge:
  assumes dag: "\<And>u v. v \<in> set (task_dependents s u) \<Longrightarrow> rank v < (rank u :: nat)"
    and c: "c \<in> set (task_dependents s task)"
    and same: "\<And>u. u \<noteq> task \<Longrightarrow> task_dependents s4 u = task_dependents s u"
    and less: "set (task_dependents s4 task) \<subseteq> set (task_dependents s task)"
  shows "downstream s4 c = downstream s c"
proof (intro ext iffI)
  fix t
  assume "downstream s4 c t"
  then show "downstream s c t"
    unfolding downstream_def
  proof (induction rule: rtranclp_induct)
    case base
    show ?case by simp
  next
    case (step y z)
    have "z \<in> set (task_dependents s y)"
      using step(2) same [of y] less by (cases "y = task") auto
    with step(3) show ?case
      by (rule rtranclp.rtrancl_into_rtrancl)
  qed
next
  fix t
  assume "downstream s c t"
  then show "downstream s4 c t"
    unfolding downstream_def
  proof (induction rule: rtranclp_induct)
    case base
    show ?case by simp
  next
    case (step y z)
    from step(1) have "downstream s c y"
      by (simp add: downstream_def)
    from downstream_rank [of s rank, OF dag this] dag [OF c] have "y \<noteq> task"
      by auto
    with step(2) have "z \<in> set (task_dependents s4 y)"
      by (simp add: same)
    with step(3) show ?case
      by (rule rtranclp.rtrancl_into_rtrancl)
  qed
qed

text \<open>All the definitions a concrete run unfolds.\<close>

lemmas sched_defs =
  iree_ok_status_def iree_status_is_ok_def
  iree_task_scope_fail_def iree_task_scope_begin_def iree_task_scope_end_def
  iree_task_pool_acquire_def iree_task_pool_release_def
  iree_task_submission_enqueue_def iree_task_post_batch_enqueue_def
  iree_task_affinity_for_any_worker_def
  set_header_def iree_task_initialize_def iree_task_set_cleanup_fn_def
  iree_task_set_completion_task_def iree_task_is_ready_def iree_task_try_set_status_def
  iree_task_cleanup_def iree_task_discard_def iree_task_retire_def
  set_call_status_def iree_task_call_initialize_def call_invoke_def iree_task_call_execute_def
  iree_task_dispatch_statistics_merge_def set_dispatch_def
  iree_task_dispatch_initialize_base_def iree_task_dispatch_initialize_def
  iree_task_dispatch_initialize_indirect_def iree_task_dispatch_retire_def
  iree_task_dispatch_slice_initialize_def iree_task_dispatch_slice_allocate_def
  issue_slice_def resolve_workgroup_count_def iree_task_dispatch_issue_sliced_def
  slice_tile_def slice_finish_def iree_task_dispatch_slice_execute_def
  iree_task_dispatch_shard_initialize_def iree_task_dispatch_shard_allocate_def
  issue_shard_def iree_task_dispatch_issue_sharded_def
  Let_def

section \<open>A dispatch without workgroups\<close>

lemma retire_ok_without_work:
  assumes h: "headers s1 = (headers s)(d := (headers s d)\<lparr>flags := F\<rparr>)"
    and rest: "post_batch s1 = post_batch s" "slices s1 = slices s" "shards s1 = shards s"
      "tile_log s1 = tile_log s" "call_log s1 = call_log s" "pools s1 = pools s"
      "\<forall>sc. permanent_status (scopes s1 sc) = permanent_status (scopes s sc)"
      "cleanup_log s1 = cleanup_log s"
      "pending_submission s1 = pending_submission s"
  shows "\<exists>s'. iree_task_retire d iree_ok_status s1 = Some s' \<and> retired_ok_without_work d s s'"
proof (cases "completion_task (headers s d)")
  case None
  with h rest show ?thesis
    by (auto simp: iree_task_retire_def Let_def iree_ok_status_def iree_status_is_ok_def
        set_header_def iree_task_cleanup_def iree_task_pool_release_def
        retired_ok_without_work_def split: option.splits)
next
  case (Some c)
  with h rest show ?thesis
    by (auto simp: iree_task_retire_def Let_def iree_ok_status_def iree_status_is_ok_def
        set_header_def iree_task_cleanup_def iree_task_pool_release_def
        iree_task_submission_enqueue_def
        retired_ok_without_work_def split: option.splits)
qed


lemma resolve_flag:
  "resolve_workgroup_count d
     (set_header d (\<lambda>h. h\<lparr>flags := insert IREE_TASK_FLAG_DISPATCH_RETIRE (flags h)\<rparr>) s)
   = resolve_workgroup_count d s"
  by (simp add: resolve_workgroup_count_def set_header_def)

lemma dispatch_retire_ok_without_work:
  assumes h: "headers s1 = (headers s)(d := (headers s d)\<lparr>flags := F\<rparr>)"
    and st: "dispatch_status (dispatches s1 d) = iree_ok_status"
    and rest: "post_batch s1 = post_batch s" "slices s1 = slices s" "shards s1 = shards s"
      "tile_log s1 = tile_log s" "call_log s1 = call_log s" "pools s1 = pools s"
      "\<forall>sc. permanent_status (scopes s1 sc) = permanent_status (scopes s sc)"
      "cleanup_log s1 = cleanup_log s"
      "pending_submission s1 = pending_submission s"
  shows "\<exists>s'. iree_task_dispatch_retire d s1 = Some s' \<and> retired_ok_without_work d s s'"
proof -
  have "\<exists>s2. iree_task_dispatch_retire d s1 = iree_task_retire d iree_ok_status s2
      \<and> headers s2 = headers s1 \<and> post_batch s2 = post_batch s1 \<and> slices s2 = slices s1
      \<and> shards s2 = shards s1 \<and> tile_log s2 = tile_log s1 \<and> call_log s2 = call_log s1
      \<and> pools s2 = pools s1
      \<and> (\<forall>sc. permanent_status (scopes s2 sc) = permanent_status (scopes s1 sc))
      \<and> cleanup_log s2 = cleanup_log s1 \<and> pending_submission s2 = pending_submission s1"
    unfolding iree_task_dispatch_retire_def Let_def
    by (simp add: st, rule exI, intro conjI, rule refl) (simp_all add: set_dispatch_def)
  then obtain s2 where eq: "iree_task_dispatch_retire d s1 = iree_task_retire d iree_ok_status s2"
    and s2: "headers s2 = headers s1" "post_batch s2 = post_batch s1" "slices s2 = slices s1"
      "shards s2 = shards s1" "tile_log s2 = tile_log s1" "call_log s2 = call_log s1"
      "pools s2 = pools s1"
      "\<forall>sc. permanent_status (scopes s2 sc) = permanent_status (scopes s1 sc)"
      "cleanup_log s2 = cleanup_log s1" "pending_submission s2 = pending_submission s1"
    by blast
  show ?thesis
    unfolding eq
    by (rule retire_ok_without_work [where F = F]) (simp_all add: s2 h rest)
qed

section \<open>The status slot of a CALL\<close>

lemma set_call_status_twice:
  "set_call_status task a (set_call_status task b s) = set_call_status task a s"
  by (simp add: set_call_status_def)

lemma set_call_status_same:
  "call_status (calls s task) = c \<Longrightarrow> set_call_status task c s = s"
  by (auto simp: set_call_status_def)

section \<open>The tile loops of a slice\<close>

lemma tiles_ran_refl: "tiles_ran task IREE_STATUS_OK s s"
  unfolding tiles_ran_def
  by (auto simp: iree_status_is_ok_def intro: exI [where x = "slice_statistics (slices s task)"])

lemma tiles_ran_trans:
  assumes a: "tiles_ran task IREE_STATUS_OK s s1" and b: "tiles_ran task status s1 s2"
  shows "tiles_ran task status s s2"
proof -
  from a obtain stats1 oks1 where
    f1: "headers s1 = headers s" "calls s1 = calls s" "barriers s1 = barriers s"
      "dispatches s1 = dispatches s" "shards s1 = shards s" "scopes s1 = scopes s"
      "pools s1 = pools s" "indirect s1 = indirect s"
      "pending_submission s1 = pending_submission s" "post_batch s1 = post_batch s"
      "cleanup_log s1 = cleanup_log s" "call_log s1 = call_log s"
    and sl1: "slices s1 = (slices s)(task := (slices s task)\<lparr>slice_statistics := stats1\<rparr>)"
    and l1: "tile_log s1 = tile_log s @ oks1" "\<forall>e \<in> set oks1. snd (snd e) = IREE_STATUS_OK"
    unfolding tiles_ran_def by (auto simp: iree_status_is_ok_def)
  from b obtain stats2 oks2 failed where
    f2: "headers s2 = headers s1" "calls s2 = calls s1" "barriers s2 = barriers s1"
      "dispatches s2 = dispatches s1" "shards s2 = shards s1" "scopes s2 = scopes s1"
      "pools s2 = pools s1" "indirect s2 = indirect s1"
      "pending_submission s2 = pending_submission s1" "post_batch s2 = post_batch s1"
      "cleanup_log s2 = cleanup_log s1" "call_log s2 = call_log s1"
    and sl2: "slices s2 = (slices s1)(task := (slices s1 task)\<lparr>slice_statistics := stats2\<rparr>)"
    and l2: "tile_log s2 = tile_log s1 @ oks2 @ failed" "\<forall>e \<in> set oks2. snd (snd e) = IREE_STATUS_OK"
      "if iree_status_is_ok status then failed = []
       else \<exists>tile. failed = [(slice_closure (slices s1 task), tile, status)]"
    unfolding tiles_ran_def by blast
  have sl: "slices s2 = (slices s)(task := (slices s task)\<lparr>slice_statistics := stats2\<rparr>)"
    by (simp add: sl1 sl2)
  have cl: "slice_closure (slices s1 task) = slice_closure (slices s task)"
    by (simp add: sl1)
  have l: "tile_log s2 = tile_log s @ (oks1 @ oks2) @ failed"
    by (simp add: l1 l2)
  have oks: "\<forall>e \<in> set (oks1 @ oks2). snd (snd e) = IREE_STATUS_OK"
    using l1 l2 by auto
  have fl: "if iree_status_is_ok status then failed = []
       else \<exists>tile. failed = [(slice_closure (slices s task), tile, status)]"
    using l2(3) unfolding cl .
  show ?thesis
    unfolding tiles_ran_def
  proof (intro conjI)
    show "\<exists>stats. slices s2 = (slices s)(task := (slices s task)\<lparr>slice_statistics := stats\<rparr>)"
      using sl by (rule exI)
    show "\<exists>oks failed.
            tile_log s2 = tile_log s @ oks @ failed
            \<and> (\<forall>e \<in> set oks. snd (snd e) = IREE_STATUS_OK)
            \<and> (if iree_status_is_ok status then failed = []
                else \<exists>tile. failed = [(slice_closure (slices s task), tile, status)])"
      using l oks fl by blast
  qed (simp_all add: f1 f2)
qed

lemma slice_tile_ran:
  assumes "slice_tile E task tile s = (status, s1)"
  shows "tiles_ran task status s s1"
proof -
  obtain st stats u where r: "tile_fn E (slice_closure (slices s task))
        \<lparr>workgroup_xyz = tile,
         tile_workgroup_size = slice_workgroup_size (slices s task),
         tile_workgroup_count = slice_workgroup_count (slices s task),
         tile_statistics = slice_statistics (slices s task),
         tile_local_memory_length = slice_local_memory_size (slices s task)\<rparr> (user s) = (st, stats, u)"
    by (metis prod_cases3)
  with assms have st: "status = st"
    and s1: "s1 = s\<lparr>slices := (slices s)(task := (slices s task)\<lparr>slice_statistics := stats\<rparr>),
                user := u,
                tile_log := tile_log s @ [(slice_closure (slices s task), tile, st)]\<rparr>"
    by (auto simp: slice_tile_def Let_def)
  have sl: "\<exists>stats. slices s1 = (slices s)(task := (slices s task)\<lparr>slice_statistics := stats\<rparr>)"
    by (rule exI [where x = stats]) (simp add: s1)
  have "tile_log s1 = tile_log s @ (if st = IREE_STATUS_OK then [(slice_closure (slices s task), tile, st)] else [])
      @ (if st = IREE_STATUS_OK then [] else [(slice_closure (slices s task), tile, st)])"
    unfolding s1 by simp
  moreover have "\<forall>e \<in> set (if st = IREE_STATUS_OK then [(slice_closure (slices s task), tile, st)] else []).
      snd (snd e) = IREE_STATUS_OK"
    by simp
  moreover have "if iree_status_is_ok status
      then (if st = IREE_STATUS_OK then [] else [(slice_closure (slices s task), tile, st)]) = []
      else \<exists>tile'. (if st = IREE_STATUS_OK then [] else [(slice_closure (slices s task), tile, st)])
             = [(slice_closure (slices s task), tile', status)]"
    by (cases tile) (simp add: st iree_status_is_ok_def)
  ultimately have lg: "\<exists>oks failed.
            tile_log s1 = tile_log s @ oks @ failed
            \<and> (\<forall>e \<in> set oks. snd (snd e) = IREE_STATUS_OK)
            \<and> (if iree_status_is_ok status then failed = []
                else \<exists>tile. failed = [(slice_closure (slices s task), tile, status)])"
    by blast
  show ?thesis
    unfolding tiles_ran_def
    using sl lg by (simp add: s1)
qed

lemma slice_loop_x_ran:
  assumes "slice_loop_x E task range_x z y x s = Some r"
  shows "tiles_ran task (fst r) s (snd r)"
  using assms
proof (induction rule: slice_loop_x.raw_induct [rotated 1, consumes 1])
  case (1 f E task range_x z y x s r)
  show ?case
  proof (cases "x \<le> range_x")
    case False
    with 1(2) show ?thesis
      by (auto simp: iree_ok_status_def tiles_ran_refl)
  next
    case True
    obtain st0 s0 where t: "slice_tile E task (x, y, z) s = (st0, s0)"
      by (cases "slice_tile E task (x, y, z) s")
    show ?thesis
    proof (cases "iree_status_is_ok st0")
      case ok: True
      with 1(2) True t have "f E task range_x z y (x + 1) s0 = Some r"
        by simp
      then have "tiles_ran task (fst r) s0 (snd r)"
        by (rule 1(1))
      moreover from slice_tile_ran [OF t] ok have "tiles_ran task IREE_STATUS_OK s s0"
        by (simp add: iree_status_is_ok_def)
      ultimately show ?thesis
        by (rule tiles_ran_trans [rotated])
    next
      case False
      with 1(2) True t have "r = (st0, s0)"
        by simp
      with slice_tile_ran [OF t] show ?thesis
        by simp
    qed
  qed
qed

lemma slice_loop_y_ran:
  assumes "slice_loop_y E task base_x range_x range_y z y s = Some r"
  shows "tiles_ran task (fst r) s (snd r)"
  using assms
proof (induction rule: slice_loop_y.raw_induct [rotated 1, consumes 1])
  case (1 f E task base_x range_x range_y z y s r)
  show ?case
  proof (cases "y \<le> range_y")
    case False
    with 1(2) show ?thesis
      by (auto simp: iree_ok_status_def tiles_ran_refl)
  next
    case True
    with 1(2) obtain r0 where x: "slice_loop_x E task range_x z y base_x s = Some r0"
      and rest: "(case r0 of (status, s1) \<Rightarrow>
             if \<not> iree_status_is_ok status then Some (status, s1)
             else f E task base_x range_x range_y z (y + 1) s1) = Some r"
      by (auto simp: bind_eq_Some_conv)
    from slice_loop_x_ran [OF x] have r0: "tiles_ran task (fst r0) s (snd r0)" .
    show ?thesis
    proof (cases "iree_status_is_ok (fst r0)")
      case ok: True
      with rest have "f E task base_x range_x range_y z (y + 1) (snd r0) = Some r"
        by (simp add: case_prod_beta)
      then have "tiles_ran task (fst r) (snd r0) (snd r)"
        by (rule 1(1))
      moreover from r0 ok have "tiles_ran task IREE_STATUS_OK s (snd r0)"
        by (simp add: iree_status_is_ok_def)
      ultimately show ?thesis
        by (rule tiles_ran_trans [rotated])
    next
      case False
      with rest have "r = r0"
        by (simp add: case_prod_beta)
      with r0 show ?thesis
        by simp
    qed
  qed
qed

lemma slice_loop_z_ran:
  assumes "slice_loop_z E task base_x range_x base_y range_y range_z z s = Some r"
  shows "tiles_ran task (fst r) s (snd r)"
  using assms
proof (induction rule: slice_loop_z.raw_induct [rotated 1, consumes 1])
  case (1 f E task base_x range_x base_y range_y range_z z s r)
  show ?case
  proof (cases "z \<le> range_z")
    case False
    with 1(2) show ?thesis
      by (auto simp: iree_ok_status_def tiles_ran_refl)
  next
    case True
    with 1(2) obtain r0 where x: "slice_loop_y E task base_x range_x range_y z base_y s = Some r0"
      and rest: "(case r0 of (status, s1) \<Rightarrow>
             if \<not> iree_status_is_ok status then Some (status, s1)
             else f E task base_x range_x base_y range_y range_z (z + 1) s1) = Some r"
      by (auto simp: bind_eq_Some_conv)
    from slice_loop_y_ran [OF x] have r0: "tiles_ran task (fst r0) s (snd r0)" .
    show ?thesis
    proof (cases "iree_status_is_ok (fst r0)")
      case ok: True
      with rest have "f E task base_x range_x base_y range_y range_z (z + 1) (snd r0) = Some r"
        by (simp add: case_prod_beta)
      then have "tiles_ran task (fst r) (snd r0) (snd r)"
        by (rule 1(1))
      moreover from r0 ok have "tiles_ran task IREE_STATUS_OK s (snd r0)"
        by (simp add: iree_status_is_ok_def)
      ultimately show ?thesis
        by (rule tiles_ran_trans [rotated])
    next
      case False
      with rest have "r = r0"
        by (simp add: case_prod_beta)
      with r0 show ?thesis
        by simp
    qed
  qed
qed

lemma retire_ok:
  "\<exists>s'. iree_task_retire task iree_ok_status s = Some s'
     \<and> cleanup_log s' = cleanup_log s @
         (case cleanup_fn (headers s task) of None \<Rightarrow> [] | Some fn \<Rightarrow> [(fn, task, IREE_STATUS_OK)])
     \<and> scopes s' = scopes s \<and> retire_rel s s'"
proof -
  obtain s' where s': "iree_task_retire task iree_ok_status s = Some s'"
    by (simp add: iree_task_retire_def Let_def iree_ok_status_def iree_status_is_ok_def)
  then have "retire_rel s s'"
    by (rule retire_rel)
  moreover from s' have "cleanup_log s' = cleanup_log s @
         (case cleanup_fn (headers s task) of None \<Rightarrow> [] | Some fn \<Rightarrow> [(fn, task, IREE_STATUS_OK)])
     \<and> scopes s' = scopes s"
    by (auto simp: iree_task_retire_def Let_def iree_ok_status_def iree_status_is_ok_def
        set_header_def iree_task_cleanup_def iree_task_pool_release_def
        iree_task_submission_enqueue_def split: option.splits if_splits)
  ultimately show ?thesis
    using s' by blast
qed

text \<open>The loops of a slice end whenever no range component is \<open>0xFFFFFFFF\<close>.\<close>

lemma unat_less_max:
  fixes a r :: u32
  assumes "a \<le> r" and "r \<noteq> - 1"
  shows "unat (a + 1) = Suc (unat a)"
proof -
  have "unat r \<noteq> unat (- 1 :: u32)"
    using assms(2) by (simp add: word_unat_eq_iff)
  moreover have "unat r < 2 ^ 32"
    using unsigned_less [of r] by simp
  moreover have "unat (- 1 :: u32) = 2 ^ 32 - 1"
    by (simp add: unsigned_minus_1_eq_mask mask_eq_exp_minus_1)
  ultimately have "unat r < 2 ^ 32 - 1"
    by simp
  moreover from assms(1) have "unat a \<le> unat r"
    by (simp add: word_le_nat_alt)
  ultimately have "unat a + 1 < 2 ^ 32"
    by simp
  then show ?thesis
    by (simp add: unat_word_ariths)
qed

lemma slice_loop_x_returns:
  assumes "range_x \<noteq> - 1"
  shows "\<exists>r. slice_loop_x E task range_x z y tx s = Some r"
proof (induction "Suc (unat range_x) - unat tx" arbitrary: tx s)
  case 0
  then have "\<not> tx \<le> range_x"
    by (simp add: word_le_nat_alt)
  then show ?case
    by (subst slice_loop_x.simps) simp
next
  case (Suc n)
  show ?case
  proof (cases "tx \<le> range_x")
    case False
    then show ?thesis
      by (subst slice_loop_x.simps) simp
  next
    case True
    obtain st0 s0 where t: "slice_tile E task (tx, y, z) s = (st0, s0)"
      by (cases "slice_tile E task (tx, y, z) s")
    from unat_less_max [OF True assms] Suc(2) have "n = Suc (unat range_x) - unat (tx + 1)"
      by simp
    then obtain r where "slice_loop_x E task range_x z y (tx + 1) s0 = Some r"
      using Suc(1) by blast
    with True t show ?thesis
      by (subst slice_loop_x.simps) simp
  qed
qed

lemma slice_loop_y_returns:
  assumes "range_x \<noteq> - 1" and "range_y \<noteq> - 1"
  shows "\<exists>r. slice_loop_y E task base_x range_x range_y z y s = Some r"
proof (induction "Suc (unat range_y) - unat y" arbitrary: y s)
  case 0
  then have "\<not> y \<le> range_y"
    by (simp add: word_le_nat_alt)
  then show ?case
    by (subst slice_loop_y.simps) simp
next
  case (Suc n)
  show ?case
  proof (cases "y \<le> range_y")
    case False
    then show ?thesis
      by (subst slice_loop_y.simps) simp
  next
    case True
    obtain st0 s0 where t: "slice_loop_x E task range_x z y base_x s = Some (st0, s0)"
      using slice_loop_x_returns [OF assms(1)] by fastforce
    from unat_less_max [OF True assms(2)] Suc(2) have "n = Suc (unat range_y) - unat (y + 1)"
      by simp
    then obtain r where "slice_loop_y E task base_x range_x range_y z (y + 1) s0 = Some r"
      using Suc(1) by blast
    with True t show ?thesis
      by (subst slice_loop_y.simps) simp
  qed
qed

lemma slice_loop_z_returns:
  assumes "range_x \<noteq> - 1" and "range_y \<noteq> - 1" and "range_z \<noteq> - 1"
  shows "\<exists>r. slice_loop_z E task base_x range_x base_y range_y range_z z s = Some r"
proof (induction "Suc (unat range_z) - unat z" arbitrary: z s)
  case 0
  then have "\<not> z \<le> range_z"
    by (simp add: word_le_nat_alt)
  then show ?case
    by (subst slice_loop_z.simps) simp
next
  case (Suc n)
  show ?case
  proof (cases "z \<le> range_z")
    case False
    then show ?thesis
      by (subst slice_loop_z.simps) simp
  next
    case True
    obtain st0 s0 where t: "slice_loop_y E task base_x range_x range_y z base_y s = Some (st0, s0)"
      using slice_loop_y_returns [OF assms(1,2)] by fastforce
    from unat_less_max [OF True assms(3)] Suc(2) have "n = Suc (unat range_z) - unat (z + 1)"
      by simp
    then obtain r where "slice_loop_z E task base_x range_x base_y range_y range_z (z + 1) s0 = Some r"
      using Suc(1) by blast
    with True t show ?thesis
      by (subst slice_loop_z.simps) simp
  qed
qed

lemma slice_execute_returns:
  assumes "workgroup_range (slices s task) = (range_x, range_y, range_z)"
    and "range_x \<noteq> - 1" and "range_y \<noteq> - 1" and "range_z \<noteq> - 1"
    and "unat (slice_local_memory_size (slices s task)) \<le> data_length"
  shows "\<exists>s'. iree_task_dispatch_slice_execute E task data_length s = Some s'"
proof -
  obtain base_x base_y base_z where b: "workgroup_base (slices s task) = (base_x, base_y, base_z)"
    by (metis prod_cases3)
  obtain status s1 where
    l: "slice_loop_z E task base_x range_x base_y range_y range_z base_z s = Some (status, s1)"
    using slice_loop_z_returns [OF assms(2,3,4)] by fastforce
  have "\<exists>s'. slice_finish task status s1 = Some s'"
    unfolding slice_finish_def Let_def using retire_ok by blast
  with assms(1,5) b l show ?thesis
    by (simp add: iree_task_dispatch_slice_execute_def Let_def)
qed

text \<open>The definitions of the example states and configurations.\<close>

lemmas example_defs = sched_slice_row_def sched_row_def sched_zero_def env_example_def env_tile_fail_def

section \<open>The shards of a dispatch running together\<close>

























section \<open>A failed scope stays failed\<close>

lemma keeps_refl: "keeps_failures s s"
  by (simp add: keeps_failures_def)

lemma keeps_trans: "keeps_failures s s1 \<Longrightarrow> keeps_failures s1 s2 \<Longrightarrow> keeps_failures s s2"
  by (simp add: keeps_failures_def)

lemma keeps_scopes: "scopes s' = scopes s \<Longrightarrow> keeps_failures s s'"
  by (simp add: keeps_failures_def)

lemma discard_rel_keeps: "discard_rel s s' \<Longrightarrow> keeps_failures s s'"
  by (simp add: keeps_failures_def discard_rel_def)

lemma scope_fail_keeps: "keeps_failures s (iree_task_scope_fail sc task status s)"
  by (simp add: keeps_failures_def iree_task_scope_fail_def)

lemma retire_keeps:
  assumes "iree_task_retire task status s = Some s'"
  shows "keeps_failures s s'"
proof -
  define s2 where "s2 = (case completion_task (headers s task) of
      None \<Rightarrow> set_header task (\<lambda>h. h\<lparr>completion_task := None\<rparr>) s
    | Some c \<Rightarrow> set_header c (\<lambda>h. h\<lparr>pending_dependency_count := pending_dependency_count h - 1\<rparr>)
        (set_header task (\<lambda>h. h\<lparr>completion_task := None\<rparr>) s))"
  have r2: "keeps_failures s s2"
    by (rule keeps_scopes) (simp add: s2_def set_header_def split: option.splits)
  show ?thesis
  proof (cases "iree_status_is_ok status")
    case True
    with assms have "s' = iree_task_cleanup task IREE_STATUS_OK s2
        \<or> s' = iree_task_submission_enqueue (the (completion_task (headers s task)))
                 (iree_task_cleanup task IREE_STATUS_OK s2)"
      by (auto simp: iree_task_retire_def Let_def s2_def split: option.splits if_splits)
    then have "keeps_failures s2 s'"
      using discard_rel_keeps [OF cleanup_rel [of s2 task IREE_STATUS_OK]]
      by (auto simp: keeps_failures_def iree_task_submission_enqueue_def)
    with r2 show ?thesis by (rule keeps_trans)
  next
    case False
    define s4 where "s4 = iree_task_cleanup task IREE_STATUS_ABORTED
        (iree_task_scope_fail (scope (headers s2 task)) task status s2)"
    have r4: "keeps_failures s2 s4"
      unfolding s4_def
      by (rule keeps_trans [OF scope_fail_keeps discard_rel_keeps [OF cleanup_rel]])
    from assms False have
      "(\<exists>c wl s5. iree_task_discard c [] s4 = (wl, s5) \<and> iree_task_list_discard wl s5 = Some s')
       \<or> s' = s4
       \<or> (\<exists>c. s' = set_header c (\<lambda>h. h\<lparr>flags := insert IREE_TASK_FLAG_ABORTED (flags h)\<rparr>) s4)"
      by (auto simp: iree_task_retire_def Let_def s2_def s4_def split: option.splits if_splits prod.splits)
    then have "keeps_failures s4 s'"
    proof (elim disjE exE conjE)
      fix c wl s5
      assume d: "iree_task_discard c [] s4 = (wl, s5)" and l: "iree_task_list_discard wl s5 = Some s'"
      from discard_step_rel [OF d] list_discard_rel [OF l] have "discard_rel s4 s'"
        by (rule discard_rel_trans)
      then show ?thesis by (rule discard_rel_keeps)
    next
      assume "s' = s4"
      then show ?thesis by (simp add: keeps_refl)
    next
      fix c
      assume "s' = set_header c (\<lambda>h. h\<lparr>flags := insert IREE_TASK_FLAG_ABORTED (flags h)\<rparr>) s4"
      then show ?thesis by (simp add: keeps_scopes set_header_def)
    qed
    with keeps_trans [OF r2 r4] show ?thesis by (rule keeps_trans)
  qed
qed

lemma retire_fails_scope:
  assumes "\<not> iree_status_is_ok status" and "iree_task_retire task status s = Some s'"
  shows "\<not> iree_status_is_ok (permanent_status (scopes s' (scope (headers s task))))"
proof -
  define s2 where "s2 = (case completion_task (headers s task) of
      None \<Rightarrow> set_header task (\<lambda>h. h\<lparr>completion_task := None\<rparr>) s
    | Some c \<Rightarrow> set_header c (\<lambda>h. h\<lparr>pending_dependency_count := pending_dependency_count h - 1\<rparr>)
        (set_header task (\<lambda>h. h\<lparr>completion_task := None\<rparr>) s))"
  have sc: "scope (headers s2 task) = scope (headers s task)"
    by (simp add: s2_def set_header_def split: option.splits)
  define s4 where "s4 = iree_task_cleanup task IREE_STATUS_ABORTED
      (iree_task_scope_fail (scope (headers s2 task)) task status s2)"
  have f4: "\<not> iree_status_is_ok (permanent_status (scopes s4 (scope (headers s task))))"
    using assms(1)
    by (simp add: s4_def sc iree_task_cleanup_def iree_task_scope_fail_def
        iree_task_pool_release_def Let_def split: option.splits)
  from assms have
    "(\<exists>c wl s5. iree_task_discard c [] s4 = (wl, s5) \<and> iree_task_list_discard wl s5 = Some s')
     \<or> s' = s4
     \<or> (\<exists>c. s' = set_header c (\<lambda>h. h\<lparr>flags := insert IREE_TASK_FLAG_ABORTED (flags h)\<rparr>) s4)"
    by (auto simp: iree_task_retire_def Let_def s2_def s4_def split: option.splits if_splits prod.splits)
  then have "keeps_failures s4 s'"
  proof (elim disjE exE conjE)
    fix c wl s5
    assume d: "iree_task_discard c [] s4 = (wl, s5)" and l: "iree_task_list_discard wl s5 = Some s'"
    from discard_step_rel [OF d] list_discard_rel [OF l] have "discard_rel s4 s'"
      by (rule discard_rel_trans)
    then show ?thesis by (rule discard_rel_keeps)
  next
    assume "s' = s4"
    then show ?thesis by (simp add: keeps_refl)
  next
    fix c
    assume "s' = set_header c (\<lambda>h. h\<lparr>flags := insert IREE_TASK_FLAG_ABORTED (flags h)\<rparr>) s4"
    then show ?thesis by (simp add: keeps_scopes set_header_def)
  qed
  with f4 show ?thesis
    by (simp add: keeps_failures_def)
qed

lemma call_execute_keeps:
  assumes cl: "closures_keep_failures E"
    and ex: "iree_task_call_execute E task s = Some s'"
  shows "keeps_failures s s'"
proof -
  have inv: "keeps_failures s (call_invoke E task s)"
  proof (cases "IREE_TASK_FLAG_ABORTED \<in> flags (headers s task)")
    case True
    then show ?thesis by (simp add: call_invoke_def keeps_refl)
  next
    case False
    let ?s0 = "s\<lparr>call_log := call_log s @ [task]\<rparr>"
    obtain st s1 where c: "call_fn E (call_closure (calls s task)) task ?s0 = (st, s1)"
      by (cases "call_fn E (call_closure (calls s task)) task ?s0")
    from cl have "keeps_failures ?s0 (snd (call_fn E (call_closure (calls s task)) task ?s0))"
      unfolding closures_keep_failures_def by blast
    then have "keeps_failures s s1"
      by (simp add: c keeps_failures_def)
    moreover have "keeps_failures s1 (call_invoke E task s)"
      using False by (simp add: call_invoke_def c keeps_failures_def set_call_status_def)
    ultimately show ?thesis by (rule keeps_trans)
  qed
  show ?thesis
  proof (cases "pending_dependency_count (headers (call_invoke E task s) task) = 0")
    case False
    with ex have "s' = call_invoke E task s"
      by (simp add: iree_task_call_execute_def Let_def)
    with inv show ?thesis by simp
  next
    case True
    let ?s1 = "call_invoke E task s"
    from True ex have "iree_task_retire task (call_status (calls ?s1 task))
        (set_call_status task iree_ok_status ?s1) = Some s'"
      by (simp add: iree_task_call_execute_def Let_def)
    from retire_keeps [OF this] have "keeps_failures ?s1 s'"
      by (simp add: keeps_failures_def set_call_status_def)
    with inv show ?thesis by (rule keeps_trans)
  qed
qed

lemma barrier_release_scopes: "scopes (fold barrier_release ds s) = scopes s"
  by (induction ds arbitrary: s)
    (simp_all add: barrier_release_def Let_def set_header_def iree_task_submission_enqueue_def)

lemma barrier_retire_keeps:
  assumes "iree_task_barrier_retire task s = Some s'"
  shows "keeps_failures s s'"
proof -
  from assms have "keeps_failures (fold barrier_release (rev (dependent_tasks (barriers s task))) s) s'"
    unfolding iree_task_barrier_retire_def by (rule retire_keeps)
  then show ?thesis
    by (simp add: keeps_failures_def barrier_release_scopes)
qed

lemma fence_retire_keeps:
  assumes "iree_task_fence_retire task s = Some s'"
  shows "keeps_failures s s'"
proof -
  from assms have "keeps_failures (iree_task_scope_end (scope (headers s task)) s) s'"
    unfolding iree_task_fence_retire_def by (rule retire_keeps)
  with discard_rel_keeps [OF scope_end_rel] show ?thesis
    by (rule keeps_trans)
qed

lemma dispatch_retire_keeps:
  assumes "iree_task_dispatch_retire task s = Some s'"
  shows "keeps_failures s s'"
proof -
  from assms obtain s2 where "iree_task_retire task (dispatch_status (dispatches s task)) s2 = Some s'"
    and "\<forall>sc. permanent_status (scopes s2 sc) = permanent_status (scopes s sc)"
    by (simp add: iree_task_dispatch_retire_def Let_def set_dispatch_def)
  with retire_keeps [of task _ s2 s'] show ?thesis
    by (simp add: keeps_failures_def)
qed

lemma for_u32_inv:
  "P a \<Longrightarrow> (\<And>i a. P a \<Longrightarrow> P (body i a)) \<Longrightarrow> P (for_u32 i n body a)"
proof (induction i n body a rule: for_u32.induct)
  case (1 i n body a)
  show ?case
  proof (cases "i < n")
    case True
    from 1(3) [OF 1(2)] have "P (body i a)" .
    from 1(1) [OF True this 1(3)] have "P (for_u32 (i + 1) n body (body i a))" .
    with True show ?thesis
      by (subst for_u32.simps) (simp del: for_u32.simps)
  next
    case False
    with 1(2) show ?thesis
      by (subst for_u32.simps) (simp del: for_u32.simps)
  qed
qed

lemma for_size_t_inv:
  "P a \<Longrightarrow> (\<And>i a. P a \<Longrightarrow> P (body i a)) \<Longrightarrow> P (for_size_t i n body a)"
proof (induction i n body a rule: for_size_t.induct)
  case (1 i n body a)
  show ?case
  proof (cases "i < n")
    case True
    from 1(3) [OF 1(2)] have "P (body i a)" .
    from 1(1) [OF True this 1(3)] have "P (for_size_t (Suc i) n body (body i a))" .
    with True show ?thesis
      by (subst for_size_t.simps) (simp del: for_size_t.simps)
  next
    case False
    with 1(2) show ?thesis
      by (subst for_size_t.simps) (simp del: for_size_t.simps)
  qed
qed

lemma slice_allocate_scopes:
  "scopes (snd (iree_task_dispatch_slice_allocate d b r c p s)) = scopes s"
  by (simp add: iree_task_dispatch_slice_allocate_def iree_task_pool_acquire_def
      iree_task_dispatch_slice_initialize_def iree_task_initialize_def
      iree_task_set_completion_task_def set_header_def Let_def iree_status_is_ok_def
      split: list.splits)

lemma issue_slice_scopes:
  "scopes (fst (issue_slice E d p wg spw z y x a)) = scopes (fst a)"
proof -
  obtain s wi wc where a: "a = (s, wi, wc)"
    by (cases a)
  obtain cx cy cz where wg: "wg = (cx, cy, cz)"
    by (cases wg)
  have "scopes s1 = scopes s" if "iree_task_dispatch_slice_allocate d b r wg p s = (t, s1)" for b r t s1
    using slice_allocate_scopes [of d b r wg p s] that by simp
  then show ?thesis
    by (auto simp: issue_slice_def a wg Let_def iree_task_post_batch_enqueue_def
        split: prod.splits)
qed

lemma shard_allocate_scopes:
  "scopes (snd (iree_task_dispatch_shard_allocate d sh p s)) = scopes s"
  by (simp add: iree_task_dispatch_shard_allocate_def iree_task_pool_acquire_def
      iree_task_dispatch_shard_initialize_def iree_task_initialize_def
      iree_task_set_completion_task_def set_header_def Let_def iree_status_is_ok_def
      split: list.splits)

lemma issue_shard_scopes:
  "scopes (fst (issue_shard E d p i a)) = scopes (fst a)"
proof -
  obtain s wi where a: "a = (s, wi)"
    by (cases a)
  have "scopes s1 = scopes s" if "iree_task_dispatch_shard_allocate d d p s = (t, s1)" for t s1
    using shard_allocate_scopes [of d d p s] that by simp
  then show ?thesis
    by (auto simp: issue_shard_def a Let_def iree_task_post_batch_enqueue_def
        split: prod.splits)
qed

lemma issue_sliced_keeps:
  assumes "iree_task_dispatch_issue_sliced E d p s0 = Some s'"
  shows "keeps_failures s0 s'"
proof -
  define s where "s = set_header d (\<lambda>h. h\<lparr>flags := insert IREE_TASK_FLAG_DISPATCH_RETIRE (flags h)\<rparr>) s0"
  have k0: "keeps_failures s0 s"
    by (rule keeps_scopes) (simp add: s_def set_header_def)
  obtain cx cy cz where wg: "resolve_workgroup_count d s = (cx, cy, cz)"
    by (cases "resolve_workgroup_count d s")
  define a where "a = for_u32 0 (max 1 (cz div TILES_PER_SLICE_Z E)) (\<lambda>slice_z.
      for_u32 0 (max 1 (cy div TILES_PER_SLICE_Y E)) (\<lambda>slice_y.
        for_u32 0 (max 1 (cx div TILES_PER_SLICE_X E))
          (issue_slice E d p (cx, cy, cz)
             (max 1 (unat (max 1 (cx div TILES_PER_SLICE_X E) * max 1 (cy div TILES_PER_SLICE_Y E)
                * max 1 (cz div TILES_PER_SLICE_Z E)) div worker_count E))
             slice_z slice_y)))
      (s, select_worker E (affinity_set (headers s d)), 0)"
  have sa: "scopes (fst a) = scopes s"
    unfolding a_def
    by (intro for_u32_inv [where P = "\<lambda>x. scopes (fst x) = scopes s"])
      (simp_all add: issue_slice_scopes)
  from assms have "iree_task_dispatch_retire d s = Some s'
      \<or> iree_task_dispatch_retire d (fst a) = Some s' \<or> s' = fst a"
    unfolding iree_task_dispatch_issue_sliced_def Let_def s_def [symmetric] wg prod.case a_def [symmetric]
    by (auto split: if_splits prod.splits)
  then have "keeps_failures s s'"
  proof (elim disjE)
    assume "iree_task_dispatch_retire d s = Some s'"
    then show ?thesis by (rule dispatch_retire_keeps)
  next
    assume "iree_task_dispatch_retire d (fst a) = Some s'"
    then have "keeps_failures (fst a) s'" by (rule dispatch_retire_keeps)
    with keeps_scopes [OF sa] show ?thesis by (rule keeps_trans)
  next
    assume "s' = fst a"
    with keeps_scopes [OF sa] show ?thesis by simp
  qed
  with k0 show ?thesis by (rule keeps_trans)
qed

lemma issue_sharded_keeps:
  assumes "iree_task_dispatch_issue_sharded E d p s0 = Some s'"
  shows "keeps_failures s0 s'"
proof -
  define s where "s = set_header d (\<lambda>h. h\<lparr>flags := insert IREE_TASK_FLAG_DISPATCH_RETIRE (flags h)\<rparr>) s0"
  define s1 where "s1 = (if IREE_TASK_FLAG_DISPATCH_INDIRECT \<in> flags (headers s d)
      then set_header d (\<lambda>h. h\<lparr>flags := flags h - {IREE_TASK_FLAG_DISPATCH_INDIRECT}\<rparr>)
             (set_dispatch d (\<lambda>dt. dt\<lparr>workgroup_count_value := indirect s (workgroup_count_ptr dt)\<rparr>) s)
      else s)"
  obtain cx cy cz where wg: "workgroup_count_value (dispatches s1 d) = (cx, cy, cz)"
    by (cases "workgroup_count_value (dispatches s1 d)")
  define s2 where "s2 = set_dispatch d
      (\<lambda>dt. dt\<lparr>shard_state :=
         \<lparr>tile_index = 0, tile_count = cx * cy * cz,
          tiles_per_reservation =
            (if unat (cx * cy * cz) < worker_count E * unat (MAX_TILES_PER_SHARD_RESERVATION E)
             then 1 else MAX_TILES_PER_SHARD_RESERVATION E)\<rparr>\<rparr>) s1"
  have k2: "scopes s2 = scopes s0"
    by (simp add: s2_def s1_def s_def set_header_def set_dispatch_def)
  define a where "a = for_size_t 0 (min (unat (cx * cy * cz)) (worker_count E)) (issue_shard E d p)
      (s2, select_worker E (affinity_set (headers s2 d)))"
  have sa: "scopes (fst a) = scopes s2"
    unfolding a_def
    by (intro for_size_t_inv [where P = "\<lambda>x. scopes (fst x) = scopes s2"])
      (simp_all add: issue_shard_scopes)
  from assms have "iree_task_dispatch_retire d (fst a) = Some s' \<or> s' = fst a"
    unfolding iree_task_dispatch_issue_sharded_def Let_def s_def [symmetric] s1_def [symmetric]
      wg prod.case s2_def [symmetric] a_def [symmetric]
    by (auto split: if_splits prod.splits)
  then have "keeps_failures (fst a) s'"
  proof (elim disjE)
    assume "iree_task_dispatch_retire d (fst a) = Some s'"
    then show ?thesis by (rule dispatch_retire_keeps)
  next
    assume "s' = fst a"
    then show ?thesis by (simp add: keeps_refl)
  qed
  with keeps_scopes [of "fst a" s0] sa k2 show ?thesis
    by (auto intro: keeps_trans)
qed

lemma slice_execute_keeps:
  assumes "iree_task_dispatch_slice_execute E task n s = Some s'"
  shows "keeps_failures s s'"
proof (cases "unat (slice_local_memory_size (slices s task)) > n")
  case True
  with assms have "iree_task_retire task IREE_STATUS_RESOURCE_EXHAUSTED s = Some s'"
    by (simp add: iree_task_dispatch_slice_execute_def Let_def)
  then show ?thesis by (rule retire_keeps)
next
  case False
  obtain bx by' bz rx ry rz where b: "workgroup_base (slices s task) = (bx, by', bz)"
    and r: "workgroup_range (slices s task) = (rx, ry, rz)"
    by (metis prod_cases3)
  from assms False obtain status s1 where
    l: "slice_loop_z E task bx rx by' ry rz bz s = Some (status, s1)"
    and f: "slice_finish task status s1 = Some s'"
    by (auto simp: iree_task_dispatch_slice_execute_def Let_def b r bind_eq_Some_conv)
  from slice_loop_z_ran [OF l] have "scopes s1 = scopes s"
    by (simp add: tiles_ran_def)
  then have k1: "keeps_failures s s1"
    by (rule keeps_scopes)
  from f obtain s2 where "iree_task_retire task iree_ok_status s2 = Some s'"
    and "scopes s2 = scopes s1"
    by (simp add: slice_finish_def Let_def set_dispatch_def split: option.splits if_splits)
  with retire_keeps [of task iree_ok_status s2 s'] have "keeps_failures s1 s'"
    by (simp add: keeps_failures_def)
  with k1 show ?thesis by (rule keeps_trans)
qed

lemma shard_loop_step_scopes:
  assumes "shard_loop_step E task fr s = Some (fr', s')"
  shows "scopes s' = scopes s"
  using assms
  by (auto simp: shard_loop_step_def Let_def set_dispatch_def
      split: shard_ctl.splits if_splits prod.splits)

lemma shard_loop_scopes:
  assumes "shard_loop E task fr s = Some r"
  shows "scopes (snd r) = scopes s"
  using assms
proof (induction rule: shard_loop.raw_induct [rotated 1, consumes 1])
  case (1 f E task fr s r)
  show ?case
  proof (cases "ctl fr = AT_ABORT_SHARD")
    case True
    with 1(2) show ?thesis by auto
  next
    case False
    with 1(2) obtain fr1 s1 where st: "shard_loop_step E task fr s = Some (fr1, s1)"
      and rest: "f E task fr1 s1 = Some r"
      by (auto simp: bind_eq_Some_conv)
    from 1(1) [OF rest] shard_loop_step_scopes [OF st] show ?thesis
      by simp
  qed
qed

lemma shard_execute_keeps:
  assumes "iree_task_dispatch_shard_execute E task n s = Some s'"
  shows "keeps_failures s s'"
proof (cases "unat (dispatch_local_memory_size (dispatches s (shard_dispatch_task (shards s task)))) > n")
  case True
  with assms have "iree_task_retire task IREE_STATUS_RESOURCE_EXHAUSTED s = Some s'"
    by (simp add: iree_task_dispatch_shard_execute_def Let_def)
  then show ?thesis by (rule retire_keeps)
next
  case False
  with assms obtain fr s1 where l: "shard_loop E task shard_frame_init s = Some (fr, s1)"
    and f: "shard_finish task fr s1 = Some s'"
    by (auto simp: iree_task_dispatch_shard_execute_def Let_def bind_eq_Some_conv)
  from shard_loop_scopes [OF l] have k1: "keeps_failures s s1"
    by (simp add: keeps_scopes)
  from f obtain s2 where "iree_task_retire task iree_ok_status s2 = Some s'"
    and "scopes s2 = scopes s1"
    by (simp add: shard_finish_def Let_def set_dispatch_def split: if_splits)
  with retire_keeps [of task iree_ok_status s2 s'] have "keeps_failures s1 s'"
    by (simp add: keeps_failures_def)
  with k1 show ?thesis by (rule keeps_trans)
qed

lemma worker_execute_keeps:
  assumes cl: "closures_keep_failures E"
    and ex: "worker_execute E w task s = Some s'"
  shows "keeps_failures s s'"
proof (cases "\<not> iree_status_is_ok (permanent_status (scopes s (scope (headers s task))))
    \<and> task_type (headers s task) \<noteq> IREE_TASK_TYPE_FENCE")
  case True
  obtain wl s1 where d: "iree_task_discard task [] s = (wl, s1)"
    by (cases "iree_task_discard task [] s")
  with True ex have l: "iree_task_list_discard wl s1 = Some s'"
    by (simp add: worker_execute_def Let_def)
  from discard_step_rel [OF d] list_discard_rel [OF l] have "discard_rel s s'"
    by (rule discard_rel_trans)
  then show ?thesis by (rule discard_rel_keeps)
next
  case False
  show ?thesis
  proof (cases "task_type (headers s task)")
    case IREE_TASK_TYPE_NOP
    with False ex show ?thesis
      by (auto simp: worker_execute_def Let_def iree_task_nop_retire_def intro: retire_keeps)
  next
    case IREE_TASK_TYPE_CALL
    with False ex show ?thesis
      by (auto simp: worker_execute_def Let_def intro: call_execute_keeps [OF cl])
  next
    case IREE_TASK_TYPE_BARRIER
    with False ex show ?thesis
      by (auto simp: worker_execute_def Let_def intro: barrier_retire_keeps)
  next
    case IREE_TASK_TYPE_FENCE
    with False ex show ?thesis
      by (auto simp: worker_execute_def Let_def intro: fence_retire_keeps)
  next
    case IREE_TASK_TYPE_WAIT
    let ?s1 = "set_header task (\<lambda>h. h\<lparr>flags := insert IREE_TASK_FLAG_WAIT_COMPLETED (flags h)\<rparr>) s"
    from IREE_TASK_TYPE_WAIT False ex have "iree_task_retire task iree_ok_status ?s1 = Some s'"
      by (auto simp: worker_execute_def Let_def iree_task_wait_check_condition_def
          iree_task_wait_retire_def)
    from retire_keeps [OF this] show ?thesis
      by (simp add: keeps_failures_def set_header_def)
  next
    case IREE_TASK_TYPE_DISPATCH
    with False ex show ?thesis
      by (auto simp: worker_execute_def Let_def split: if_splits
          intro: dispatch_retire_keeps issue_sliced_keeps issue_sharded_keeps)
  next
    case IREE_TASK_TYPE_DISPATCH_SLICE
    with False ex show ?thesis
      by (auto simp: worker_execute_def Let_def intro: slice_execute_keeps)
  next
    case IREE_TASK_TYPE_DISPATCH_SHARD
    with False ex show ?thesis
      by (auto simp: worker_execute_def Let_def intro: shard_execute_keeps)
  qed
qed

lemma worker_steps_keep:
  assumes cl: "closures_keep_failures E"
    and run: "worker_steps E s s'"
  shows "keeps_failures s s'"
  using run unfolding worker_steps_def
proof (induction rule: rtranclp_induct)
  case base
  show ?case by (rule keeps_refl)
next
  case (step y z)
  from step(2) obtain w task where "worker_execute E w task y = Some z"
    by blast
  from worker_execute_keeps [OF cl this] step(3) show ?case
    by (auto intro: keeps_trans)
qed

lemma worker_execute_failed_scope:
  assumes f: "\<not> iree_status_is_ok (permanent_status (scopes s (scope (headers s task))))"
    and ex: "worker_execute E w task s = Some s'"
  shows "call_log s' = call_log s \<and> tile_log s' = tile_log s \<and> user s' = user s"
proof (cases "task_type (headers s task) = IREE_TASK_TYPE_FENCE")
  case False
  obtain wl s1 where d: "iree_task_discard task [] s = (wl, s1)"
    by (cases "iree_task_discard task [] s")
  with False f ex have l: "iree_task_list_discard wl s1 = Some s'"
    by (simp add: worker_execute_def Let_def)
  from discard_step_rel [OF d] list_discard_rel [OF l] have "discard_rel s s'"
    by (rule discard_rel_trans)
  then show ?thesis by (simp add: discard_rel_def)
next
  case True
  with ex have "iree_task_retire task iree_ok_status (iree_task_scope_end (scope (headers s task)) s) = Some s'"
    by (simp add: worker_execute_def Let_def iree_task_fence_retire_def)
  from retire_rel [OF this] show ?thesis
    by (simp add: retire_rel_def iree_task_scope_end_def)
qed

lemma call_execute_aborted:
  assumes "IREE_TASK_FLAG_ABORTED \<in> flags (headers s task)"
    and "iree_task_call_execute E task s = Some s'"
  shows "call_log s' = call_log s \<and> tile_log s' = tile_log s \<and> user s' = user s"
proof (cases "pending_dependency_count (headers s task) = 0")
  case False
  with assms show ?thesis
    by (simp add: iree_task_call_execute_def call_invoke_def Let_def)
next
  case True
  with assms have "iree_task_retire task (call_status (calls s task))
      (set_call_status task iree_ok_status s) = Some s'"
    by (simp add: iree_task_call_execute_def call_invoke_def Let_def)
  from retire_rel [OF this] show ?thesis
    by (simp add: retire_rel_def set_call_status_def)
qed

section \<open>Retiring a failed task\<close>

text \<open>
  Claim C3. A task retired with a non-OK status, in a task graph without cycles
  (\<open>task_graph_ranked\<close>: every edge lowers the rank): retiring returns; the scope is failed
  with that status (a CAS, so the scope takes it when it had none), the task's cleanup
  function is called with ABORTED, and nothing is enqueued. The completion task, if there
  is one, loses one pending dependency. If its pending count was 1, it is discarded and
  the worklist drained: the cleanup log goes on with ABORTED entries, those of the
  completion task and of every task downstream of it and of no other task, and the
  completion task is not flagged. If it has more pending dependencies, its ABORTED flag is
  set and nothing is discarded.
\<close>

theorem retire_failed:
  assumes fail: "\<not> iree_status_is_ok status"
    and ranked: "task_graph_ranked s rank"
  shows "\<exists>s' more. iree_task_retire task status s = Some s'
    \<and> permanent_status (scopes s' (scope (headers s task))) =
        (if iree_status_is_ok (permanent_status (scopes s (scope (headers s task))))
         then status else permanent_status (scopes s (scope (headers s task))))
    \<and> pending_submission s' = pending_submission s
    \<and> cleanup_log s' = cleanup_log s @
        (case cleanup_fn (headers s task) of
           None \<Rightarrow> [] | Some fn \<Rightarrow> [(fn, task, IREE_STATUS_ABORTED)]) @ more
    \<and> (case completion_task (headers s task) of
          None \<Rightarrow> more = []
        | Some c \<Rightarrow>
            pending_dependency_count (headers s' c) = pending_dependency_count (headers s c) - 1
            \<and> (if pending_dependency_count (headers s c) = 1
               then set more = aborted_entries s {t. downstream s c t}
                    \<and> flags (headers s' c) = flags (headers s c)
               else more = []
                    \<and> flags (headers s' c) = insert IREE_TASK_FLAG_ABORTED (flags (headers s c))))"
proof -
  from ranked have dag: "rank v < rank u" if "v \<in> set (task_dependents s u)" for u v
    using that unfolding task_graph_ranked_def by blast
  let ?h = "headers s task"
  let ?sc = "scope ?h"
  let ?old = "permanent_status (scopes s ?sc)"
  let ?new = "if iree_status_is_ok ?old then status else ?old"
  let ?own = "case cleanup_fn ?h of None \<Rightarrow> [] | Some fn \<Rightarrow> [(fn, task, IREE_STATUS_ABORTED)]"
  define s1 where "s1 = set_header task (\<lambda>h. h\<lparr>completion_task := None\<rparr>) s"
  define s2 where "s2 = (case completion_task ?h of
      None \<Rightarrow> s1
    | Some c \<Rightarrow> set_header c (\<lambda>h. h\<lparr>pending_dependency_count := pending_dependency_count h - 1\<rparr>) s1)"
  define s4 where "s4 = iree_task_cleanup task IREE_STATUS_ABORTED (iree_task_scope_fail ?sc task status s2)"
  have cf2: "cleanup_fn (headers s2 u) = cleanup_fn (headers s u)" for u
    by (simp add: s2_def s1_def set_header_def split: option.splits)
  have rest2: "scopes s2 = scopes s" "cleanup_log s2 = cleanup_log s"
    "pending_submission s2 = pending_submission s" "barriers s2 = barriers s"
    by (simp_all add: s2_def s1_def set_header_def split: option.splits)
  have h4: "headers s4 = headers s2" "barriers s4 = barriers s"
    by (simp_all add: s4_def iree_task_cleanup_def iree_task_scope_fail_def iree_task_pool_release_def
        Let_def rest2 split: option.splits)
  have a: "permanent_status (scopes s4 ?sc) = ?new"
    by (simp add: s4_def iree_task_cleanup_def iree_task_scope_fail_def iree_task_pool_release_def
        Let_def rest2 split: option.splits)
  have b: "cleanup_log s4 = cleanup_log s @ ?own"
    by (simp add: s4_def iree_task_cleanup_def iree_task_scope_fail_def iree_task_pool_release_def
        Let_def rest2 cf2 split: option.splits)
  have c: "pending_submission s4 = pending_submission s"
    by (simp add: s4_def iree_task_cleanup_def iree_task_scope_fail_def iree_task_pool_release_def
        Let_def rest2 split: option.splits)
  show ?thesis
  proof (cases "completion_task ?h")
    case None
    with fail have "iree_task_retire task status s = Some s4"
      by (simp add: iree_task_retire_def Let_def s4_def s2_def s1_def set_header_def)
    with a b c None show ?thesis
      by (intro exI [where x = s4] exI [where x = "[]"]) simp
  next
    case (Some cp)
    then have cin: "cp \<in> set (task_dependents s task)"
      by (simp add: task_dependents_def)
    from dag [OF cin] have ne: "cp \<noteq> task"
      by auto
    have cnt: "pending_dependency_count (headers s4 cp) = pending_dependency_count (headers s cp) - 1"
      and fl: "flags (headers s4 cp) = flags (headers s cp)"
      using ne by (simp_all add: h4 s2_def s1_def Some set_header_def)
    show ?thesis
    proof (cases "pending_dependency_count (headers s cp) = 1")
      case False
      let ?s' = "set_header cp (\<lambda>h. h\<lparr>flags := insert IREE_TASK_FLAG_ABORTED (flags h)\<rparr>) s4"
      from fail Some False ne have r: "iree_task_retire task status s = Some ?s'"
        by (simp add: iree_task_retire_def Let_def s4_def s2_def s1_def set_header_def)
      have "permanent_status (scopes ?s' ?sc) = ?new" "pending_submission ?s' = pending_submission s"
        "cleanup_log ?s' = cleanup_log s @ ?own @ []"
        "pending_dependency_count (headers ?s' cp) = pending_dependency_count (headers s cp) - 1"
        "flags (headers ?s' cp) = insert IREE_TASK_FLAG_ABORTED (flags (headers s cp))"
        using a b c cnt fl by (simp_all add: set_header_def)
      with r Some False show ?thesis
        by (intro exI [where x = ?s'] exI [where x = "[]"]) simp
    next
      case True
      obtain wl s5 where d: "iree_task_discard cp [] s4 = (wl, s5)"
        by (cases "iree_task_discard cp [] s4")
      from fail Some True ne have "iree_task_retire task status s =
          (case iree_task_discard cp [] s4 of (wl, s5) \<Rightarrow> iree_task_list_discard wl s5)"
        by (simp add: iree_task_retire_def Let_def s4_def s2_def s1_def set_header_def)
      then have r: "iree_task_retire task status s = iree_task_list_discard wl s5"
        by (simp add: d)
      have same: "task_dependents s4 u = task_dependents s u" if "u \<noteq> task" for u
        using that ne by (simp add: task_dependents_def h4 s2_def s1_def Some set_header_def)
      have less: "set (task_dependents s4 task) \<subseteq> set (task_dependents s task)"
        using ne by (auto simp: task_dependents_def h4 s2_def s1_def Some set_header_def)
      have dag4: "rank v < rank u" if "v \<in> set (task_dependents s4 u)" for u v
        using that same [of u] less dag [of v u] by (cases "u = task") auto
      note rel5 = discard_step_rel [OF d]
      from list_discard_returns [of s4 rank s5 wl, OF dag4 rel5] obtain s'
        where l: "iree_task_list_discard wl s5 = Some s'"
        by blast
      from list_discard_rel [OF l] have rel': "discard_rel s5 s'" .
      from rel5 rel' have rel: "discard_rel s4 s'"
        by (rule discard_rel_trans)
      from discard_worklist [of cp "[]" s4] d have wl: "wl = task_dependents s4 cp"
        by simp
      from discard_log [of cp "[]" s4] d have lg5: "cleanup_log s5 = cleanup_log s4 @
          (case cleanup_fn (headers s4 cp) of None \<Rightarrow> [] | Some fn \<Rightarrow> [(fn, cp, IREE_STATUS_ABORTED)])"
        by simp
      from list_discard_log [OF l] obtain more where
        m1: "cleanup_log s' = cleanup_log s5 @ more"
        and m2: "set more = aborted_entries s4 {t. \<exists>u \<in> set wl. downstream s4 u t}"
        unfolding discard_rel_graph [OF rel5] by (elim exE conjE)
      let ?ownc = "case cleanup_fn (headers s4 cp) of None \<Rightarrow> [] | Some fn \<Rightarrow> [(fn, cp, IREE_STATUS_ABORTED)]"
      have ae: "aborted_entries s4 T = aborted_entries s T" for T
        by (simp add: aborted_entries_def h4 cf2)
      have "set (?ownc @ more) = aborted_entries s4 {t. downstream s4 cp t}"
        unfolding downstream_unfold [of s4 cp] aborted_entries_insert by (simp add: m2 wl)
      also have "\<dots> = aborted_entries s {t. downstream s cp t}"
        using downstream_without_edge [of s rank cp task s4, OF dag cin same less]
        by (simp add: ae)
      finally have more: "set (?ownc @ more) = aborted_entries s {t. downstream s cp t}" .
      have lg: "cleanup_log s' = cleanup_log s @ ?own @ (?ownc @ more)"
        by (simp add: m1 lg5 b)
      from rel have hs: "headers s' = headers s4" "pending_submission s' = pending_submission s4"
        "permanent_status (scopes s' ?sc) = permanent_status (scopes s4 ?sc)"
        by (simp_all add: discard_rel_def)
      have "iree_task_retire task status s = Some s'"
        by (simp add: r l)
      moreover have "permanent_status (scopes s' ?sc) = ?new"
        by (simp add: hs a)
      moreover have "pending_submission s' = pending_submission s"
        by (simp add: hs c)
      moreover have "pending_dependency_count (headers s' cp) = pending_dependency_count (headers s cp) - 1"
        "flags (headers s' cp) = flags (headers s cp)"
        by (simp_all add: hs cnt fl)
      ultimately show ?thesis
        using lg more Some True
        by (intro exI [where x = s'] exI [where x = "?ownc @ more"]) simp
    qed
  qed
qed

text \<open>In \<open>sched_line\<close> task 2 fails with INTERNAL and task 4 waits for nothing else: the
  scope takes the status, and the cleanup functions of tasks 2, 4 and 8 see ABORTED.\<close>

theorem retire_failed_witness:
  "\<not> iree_status_is_ok IREE_STATUS_INTERNAL
   \<and> task_graph_ranked sched_line (\<lambda>t. 8 - t)
   \<and> (\<exists>s'. iree_task_retire 2 IREE_STATUS_INTERNAL sched_line = Some s'
        \<and> permanent_status (scopes s' 0) = IREE_STATUS_INTERNAL
        \<and> pending_submission s' = []
        \<and> cleanup_log s' = [(7, 2, IREE_STATUS_ABORTED), (7, 4, IREE_STATUS_ABORTED),
                             (7, 8, IREE_STATUS_ABORTED)]
        \<and> set (drop 1 (cleanup_log s')) = aborted_entries sched_line {t. downstream sched_line 4 t}
        \<and> pending_dependency_count (headers s' 4) = 0
        \<and> IREE_TASK_FLAG_ABORTED \<notin> flags (headers s' 4))"
proof -
  have h: "\<not> iree_status_is_ok IREE_STATUS_INTERNAL"
    by (simp add: iree_status_is_ok_def)
  have dag: "task_graph_ranked sched_line (\<lambda>t. 8 - t)"
    unfolding task_graph_ranked_def
    by (simp add: task_dependents_def sched_line_def sched_zero_def sched_defs split: if_splits)
  have facts: "cleanup_log sched_line = []" "cleanup_fn (headers sched_line 2) = Some 7"
    "completion_task (headers sched_line 2) = Some 4"
    "pending_dependency_count (headers sched_line 4) = 1"
    "scope (headers sched_line 2) = 0"
    "permanent_status (scopes sched_line 0) = IREE_STATUS_OK"
    "pending_submission sched_line = []"
    "flags (headers sched_line 4) = {}"
    by (simp_all add: sched_line_def sched_zero_def sched_defs)
  have ev: "\<exists>s'. iree_task_retire 2 IREE_STATUS_INTERNAL sched_line = Some s'
      \<and> cleanup_log s' = [(7, 2, IREE_STATUS_ABORTED), (7, 4, IREE_STATUS_ABORTED),
                           (7, 8, IREE_STATUS_ABORTED)]"
    by (simp add: sched_line_def sched_zero_def sched_defs iree_task_list_discard.simps)
  then obtain s' where r: "iree_task_retire 2 IREE_STATUS_INTERNAL sched_line = Some s'"
    and lg: "cleanup_log s' = [(7, 2, IREE_STATUS_ABORTED), (7, 4, IREE_STATUS_ABORTED),
                           (7, 8, IREE_STATUS_ABORTED)]"
    by (elim exE conjE)
  from retire_failed [of IREE_STATUS_INTERNAL sched_line "\<lambda>t. 8 - t" 2, OF h dag]
  have "\<exists>s'' more. iree_task_retire 2 IREE_STATUS_INTERNAL sched_line = Some s''
      \<and> permanent_status (scopes s'' 0) = IREE_STATUS_INTERNAL
      \<and> pending_submission s'' = []
      \<and> cleanup_log s'' = [(7, 2, IREE_STATUS_ABORTED)] @ more
      \<and> pending_dependency_count (headers s'' 4) = 0
      \<and> set more = aborted_entries sched_line {t. downstream sched_line 4 t}
      \<and> flags (headers s'' 4) = {}"
    by (simp add: facts iree_status_is_ok_def)
  then obtain s'' more where r': "iree_task_retire 2 IREE_STATUS_INTERNAL sched_line = Some s''"
    and st: "permanent_status (scopes s'' 0) = IREE_STATUS_INTERNAL"
    and ps: "pending_submission s'' = []"
    and lg': "cleanup_log s'' = [(7, 2, IREE_STATUS_ABORTED)] @ more"
    and cnt: "pending_dependency_count (headers s'' 4) = 0"
    and more: "set more = aborted_entries sched_line {t. downstream sched_line 4 t}"
    and fl: "flags (headers s'' 4) = {}"
    by (elim exE conjE)
  from r r' have eq: "s'' = s'"
    by simp
  from lg' have "drop 1 (cleanup_log s'') = more"
    by simp
  with more have "set (drop 1 (cleanup_log s')) = aborted_entries sched_line {t. downstream sched_line 4 t}"
    unfolding eq by simp
  with r lg st ps cnt fl have "iree_task_retire 2 IREE_STATUS_INTERNAL sched_line = Some s'
        \<and> permanent_status (scopes s' 0) = IREE_STATUS_INTERNAL
        \<and> pending_submission s' = []
        \<and> cleanup_log s' = [(7, 2, IREE_STATUS_ABORTED), (7, 4, IREE_STATUS_ABORTED),
                             (7, 8, IREE_STATUS_ABORTED)]
        \<and> set (drop 1 (cleanup_log s')) = aborted_entries sched_line {t. downstream sched_line 4 t}
        \<and> pending_dependency_count (headers s' 4) = 0
        \<and> IREE_TASK_FLAG_ABORTED \<notin> flags (headers s' 4)"
    unfolding eq by simp
  then have "\<exists>s'. iree_task_retire 2 IREE_STATUS_INTERNAL sched_line = Some s'
        \<and> permanent_status (scopes s' 0) = IREE_STATUS_INTERNAL
        \<and> pending_submission s' = []
        \<and> cleanup_log s' = [(7, 2, IREE_STATUS_ABORTED), (7, 4, IREE_STATUS_ABORTED),
                             (7, 8, IREE_STATUS_ABORTED)]
        \<and> set (drop 1 (cleanup_log s')) = aborted_entries sched_line {t. downstream sched_line 4 t}
        \<and> pending_dependency_count (headers s' 4) = 0
        \<and> IREE_TASK_FLAG_ABORTED \<notin> flags (headers s' 4)"
    by (rule exI)
  with h dag show ?thesis
    by blast
qed

section \<open>Issuing a dispatch without workgroups\<close>

text \<open>
  Claim C6, with the readiness of the completion task made precise. A dispatch whose resolved workgroup count is (0,0,0), read from
  the inline value or through the pointer of an indirect dispatch, and whose status slot
  is OK (as it is for every dispatch that has not run tiles), is retired with OK by the
  issue step in both modes: no slice or shard is created or posted, the cleanup function
  sees OK, and the completion task loses one pending dependency; the completion task is
  enqueued as ready exactly when that was its last pending dependency.
\<close>

theorem dispatch_issue_zero:
  assumes zero: "resolve_workgroup_count d s = (0, 0, 0)"
    and ok: "dispatch_status (dispatches s d) = iree_ok_status"
  shows "(\<exists>s'. iree_task_dispatch_issue_sliced E d p s = Some s' \<and> retired_ok_without_work d s s')
       \<and> (\<exists>s'. iree_task_dispatch_issue_sharded E d p s = Some s' \<and> retired_ok_without_work d s s')"
proof
  have "iree_task_dispatch_issue_sliced E d p s =
      iree_task_dispatch_retire d
        (set_header d (\<lambda>h. h\<lparr>flags := insert IREE_TASK_FLAG_DISPATCH_RETIRE (flags h)\<rparr>) s)"
    by (simp add: iree_task_dispatch_issue_sliced_def Let_def zero resolve_flag)
  moreover have "\<exists>s'. iree_task_dispatch_retire d
        (set_header d (\<lambda>h. h\<lparr>flags := insert IREE_TASK_FLAG_DISPATCH_RETIRE (flags h)\<rparr>) s) = Some s'
      \<and> retired_ok_without_work d s s'"
    by (rule dispatch_retire_ok_without_work
        [where F = "insert IREE_TASK_FLAG_DISPATCH_RETIRE (flags (headers s d))"])
      (simp_all add: set_header_def ok)
  ultimately show "\<exists>s'. iree_task_dispatch_issue_sliced E d p s = Some s' \<and> retired_ok_without_work d s s'"
    by simp
next
  define F where "F = (if IREE_TASK_FLAG_DISPATCH_INDIRECT \<in> flags (headers s d)
      then insert IREE_TASK_FLAG_DISPATCH_RETIRE (flags (headers s d)) - {IREE_TASK_FLAG_DISPATCH_INDIRECT}
      else insert IREE_TASK_FLAG_DISPATCH_RETIRE (flags (headers s d)))"
  have "\<exists>s2. iree_task_dispatch_issue_sharded E d p s = iree_task_dispatch_retire d s2
      \<and> headers s2 = (headers s)(d := (headers s d)\<lparr>flags := F\<rparr>)
      \<and> dispatch_status (dispatches s2 d) = dispatch_status (dispatches s d)
      \<and> post_batch s2 = post_batch s \<and> slices s2 = slices s
      \<and> shards s2 = shards s \<and> tile_log s2 = tile_log s \<and> call_log s2 = call_log s
      \<and> pools s2 = pools s \<and> scopes s2 = scopes s
      \<and> cleanup_log s2 = cleanup_log s \<and> pending_submission s2 = pending_submission s"
  proof (cases "IREE_TASK_FLAG_DISPATCH_INDIRECT \<in> flags (headers s d)")
    case True
    with zero have z: "indirect s (workgroup_count_ptr (dispatches s d)) = (0, 0, 0)"
      by (simp add: resolve_workgroup_count_def)
    show ?thesis
      unfolding iree_task_dispatch_issue_sharded_def Let_def
      apply (simp add: True z set_header_def set_dispatch_def split del: if_split)
      apply (rule exI, intro conjI, rule refl)
                apply (simp_all add: F_def True)
      done
  next
    case False
    with zero have z: "workgroup_count_value (dispatches s d) = (0, 0, 0)"
      by (simp add: resolve_workgroup_count_def)
    show ?thesis
      unfolding iree_task_dispatch_issue_sharded_def Let_def
      apply (simp add: False z set_header_def set_dispatch_def split del: if_split)
      apply (rule exI, intro conjI, rule refl)
                apply (simp_all add: F_def False)
      done
  qed
  then obtain s2 where eq: "iree_task_dispatch_issue_sharded E d p s = iree_task_dispatch_retire d s2"
    and s2: "headers s2 = (headers s)(d := (headers s d)\<lparr>flags := F\<rparr>)"
      "dispatch_status (dispatches s2 d) = dispatch_status (dispatches s d)"
      "post_batch s2 = post_batch s" "slices s2 = slices s"
      "shards s2 = shards s" "tile_log s2 = tile_log s" "call_log s2 = call_log s"
      "pools s2 = pools s" "scopes s2 = scopes s"
      "cleanup_log s2 = cleanup_log s" "pending_submission s2 = pending_submission s"
    by blast
  show "\<exists>s'. iree_task_dispatch_issue_sharded E d p s = Some s' \<and> retired_ok_without_work d s s'"
    unfolding eq
    by (rule dispatch_retire_ok_without_work [where F = F]) (simp_all add: s2 ok)
qed

text \<open>The indirect dispatch of \<open>sched_zero_dispatch_last\<close> is the last dependency of
  task 4: both modes retire it and enqueue task 4.\<close>

theorem dispatch_issue_zero_witness:
  "resolve_workgroup_count 5 sched_zero_dispatch_last = (0, 0, 0)
   \<and> dispatch_status (dispatches sched_zero_dispatch_last 5) = iree_ok_status
   \<and> (\<exists>s'. iree_task_dispatch_issue_sliced env_example 5 0 sched_zero_dispatch_last = Some s'
         \<and> pending_submission s' = [4] \<and> cleanup_log s' = [(7, 5, IREE_STATUS_OK)]
         \<and> post_batch s' = [])
   \<and> (\<exists>s'. iree_task_dispatch_issue_sharded env_example 5 0 sched_zero_dispatch_last = Some s'
         \<and> pending_submission s' = [4] \<and> cleanup_log s' = [(7, 5, IREE_STATUS_OK)]
         \<and> post_batch s' = [])"
proof -
  have z: "resolve_workgroup_count 5 sched_zero_dispatch_last = (0, 0, 0)"
    and ok: "dispatch_status (dispatches sched_zero_dispatch_last 5) = iree_ok_status"
    by (simp_all add: sched_zero_dispatch_last_def sched_zero_def sched_defs)
  have f: "completion_task (headers sched_zero_dispatch_last 5) = Some 4"
    "pending_dependency_count (headers sched_zero_dispatch_last 4) = 1"
    "cleanup_fn (headers sched_zero_dispatch_last 5) = Some 7"
    "pending_submission sched_zero_dispatch_last = []"
    "cleanup_log sched_zero_dispatch_last = []"
    "post_batch sched_zero_dispatch_last = []"
    by (simp_all add: sched_zero_dispatch_last_def sched_zero_def sched_defs)
  from dispatch_issue_zero [OF z ok, of env_example 0]
  obtain s1 s2 where
    a: "iree_task_dispatch_issue_sliced env_example 5 0 sched_zero_dispatch_last = Some s1"
      "retired_ok_without_work 5 sched_zero_dispatch_last s1" and
    b: "iree_task_dispatch_issue_sharded env_example 5 0 sched_zero_dispatch_last = Some s2"
      "retired_ok_without_work 5 sched_zero_dispatch_last s2"
    by blast
  from a(2) f have "pending_submission s1 = [4] \<and> cleanup_log s1 = [(7, 5, IREE_STATUS_OK)]
      \<and> post_batch s1 = []"
    by (simp add: retired_ok_without_work_def)
  moreover from b(2) f have "pending_submission s2 = [4] \<and> cleanup_log s2 = [(7, 5, IREE_STATUS_OK)]
      \<and> post_batch s2 = []"
    by (simp add: retired_ok_without_work_def)
  ultimately show ?thesis
    using z ok a(1) b(1) by simp
qed

text \<open>Claim C6 as stated fails where it says that the completion task becomes ready: in
  \<open>sched_zero_dispatch_join\<close> task 4 also waits for task 3, and after the dispatch
  retired it is neither ready nor enqueued, in either mode.\<close>

theorem dispatch_issue_zero_counterexample:
  "resolve_workgroup_count 5 sched_zero_dispatch_join = (0, 0, 0)
   \<and> completion_task (headers sched_zero_dispatch_join 5) = Some 4
   \<and> map_option (iree_task_is_ready 4)
        (iree_task_dispatch_issue_sliced env_example 5 0 sched_zero_dispatch_join) = Some False
   \<and> map_option pending_submission
        (iree_task_dispatch_issue_sliced env_example 5 0 sched_zero_dispatch_join) = Some []
   \<and> map_option (iree_task_is_ready 4)
        (iree_task_dispatch_issue_sharded env_example 5 0 sched_zero_dispatch_join) = Some False
   \<and> map_option pending_submission
        (iree_task_dispatch_issue_sharded env_example 5 0 sched_zero_dispatch_join) = Some []"
  by (simp add: sched_zero_dispatch_join_def sched_zero_dispatch_last_def sched_zero_def
      env_example_def sched_defs)

section \<open>A slice that asks for more local memory than the worker has\<close>

text \<open>
  Claim C8. When the slice's requested \<open>local_memory_size\<close> exceeds the
  \<open>data_length\<close> of the worker's local memory, executing the slice is retiring it with
  RESOURCE_EXHAUSTED, and no tile closure is invoked: the tile log and the user state are
  as before.
\<close>

theorem slice_local_memory_exhausted:
  assumes "unat (slice_local_memory_size (slices s task)) > data_length"
  shows "iree_task_dispatch_slice_execute E task data_length s =
           iree_task_retire task IREE_STATUS_RESOURCE_EXHAUSTED s
       \<and> (\<forall>s'. iree_task_dispatch_slice_execute E task data_length s = Some s' \<longrightarrow>
             tile_log s' = tile_log s \<and> user s' = user s)"
proof -
  from assms have eq: "iree_task_dispatch_slice_execute E task data_length s =
           iree_task_retire task IREE_STATUS_RESOURCE_EXHAUSTED s"
    by (simp add: iree_task_dispatch_slice_execute_def Let_def)
  moreover have "tile_log s' = tile_log s \<and> user s' = user s"
    if "iree_task_dispatch_slice_execute E task data_length s = Some s'" for s'
    using retire_rel [of task IREE_STATUS_RESOURCE_EXHAUSTED s s'] that eq
    by (simp add: retire_rel_def)
  ultimately show ?thesis by blast
qed

text \<open>The slice 6 of \<open>sched_slice_memory\<close> asks for 64 bytes and gets 16: it retires with
  RESOURCE_EXHAUSTED, which fails the scope, and no tile ran.\<close>

theorem slice_local_memory_exhausted_witness:
  "unat (slice_local_memory_size (slices sched_slice_memory 6)) > 16
   \<and> (\<exists>s'. iree_task_dispatch_slice_execute env_example 6 16 sched_slice_memory = Some s'
         \<and> tile_log s' = tile_log sched_slice_memory
         \<and> user s' = user sched_slice_memory
         \<and> permanent_status (scopes s' 0) = IREE_STATUS_RESOURCE_EXHAUSTED)"
proof -
  have h: "unat (slice_local_memory_size (slices sched_slice_memory 6)) > 16"
    by (simp add: sched_slice_memory_def sched_zero_def sched_defs)
  have r: "\<exists>s'. iree_task_retire 6 IREE_STATUS_RESOURCE_EXHAUSTED sched_slice_memory = Some s'
      \<and> permanent_status (scopes s' 0) = IREE_STATUS_RESOURCE_EXHAUSTED"
    by (simp add: sched_slice_memory_def sched_zero_def sched_defs iree_task_list_discard.simps)
  from slice_local_memory_exhausted [OF h, of env_example] r h show ?thesis
    by auto
qed

section \<open>Allocating a slice or shard from an exhausted pool\<close>



section \<open>A CALL whose closure fails\<close>

text \<open>
  Claim C5. A CALL task that is not flagged ABORTED runs its closure; let the closure
  return the non-OK \<open>status\<close> and leave the state \<open>s1\<close>. The status goes into the
  task's status slot unless the slot already holds a failure (first failure wins). If the
  pending dependency count is zero after the closure, the task is retired with the
  captured status and the slot is left OK; otherwise nothing but the slot changes: the
  task is not retired. When the task is executed again, whatever the closure returns that
  time or whether the task was flagged ABORTED meanwhile, a failure still held by the slot is the
  status the task is retired with once the pending count is zero.
\<close>

theorem call_execute_failure:
  fixes E :: "'u env"
  assumes na: "IREE_TASK_FLAG_ABORTED \<notin> flags (headers s task)"
    and run: "call_fn E (call_closure (calls s task)) task (s\<lparr>call_log := call_log s @ [task]\<rparr>) = (status, s1)"
    and fail: "\<not> iree_status_is_ok status"
  shows "iree_task_call_execute E task s =
           (if pending_dependency_count (headers s1 task) = 0
            then iree_task_retire task
                   (if call_status (calls s1 task) = IREE_STATUS_OK then status
                    else call_status (calls s1 task))
                   (set_call_status task iree_ok_status s1)
            else Some (set_call_status task
                   (if call_status (calls s1 task) = IREE_STATUS_OK then status
                    else call_status (calls s1 task)) s1))
       \<and> (\<forall>(E' :: 'u env) s2 st3 s3 c.
             IREE_TASK_FLAG_ABORTED \<notin> flags (headers s2 task)
             \<and> call_fn E' (call_closure (calls s2 task)) task (s2\<lparr>call_log := call_log s2 @ [task]\<rparr>) = (st3, s3)
             \<and> call_status (calls s3 task) = c \<and> c \<noteq> IREE_STATUS_OK
             \<and> pending_dependency_count (headers s3 task) = 0
             \<longrightarrow> iree_task_call_execute E' task s2 =
                   iree_task_retire task c (set_call_status task iree_ok_status s3))
       \<and> (\<forall>(E' :: 'u env) s2 c.
             IREE_TASK_FLAG_ABORTED \<in> flags (headers s2 task)
             \<and> call_status (calls s2 task) = c
             \<and> pending_dependency_count (headers s2 task) = 0
             \<longrightarrow> iree_task_call_execute E' task s2 =
                   iree_task_retire task c (set_call_status task iree_ok_status s2))"
proof -
  let ?c = "if call_status (calls s1 task) = IREE_STATUS_OK then status else call_status (calls s1 task)"
  have inv: "call_invoke E task s = set_call_status task ?c s1"
    using na run fail
    by (simp add: call_invoke_def iree_task_try_set_status_def iree_ok_status_def)
  have h: "headers (set_call_status task ?c s1) = headers s1"
    by (simp add: set_call_status_def)
  have cs: "call_status (calls (set_call_status task ?c s1) task) = ?c"
    by (simp add: set_call_status_def)
  have first: "iree_task_call_execute E task s =
           (if pending_dependency_count (headers s1 task) = 0
            then iree_task_retire task ?c (set_call_status task iree_ok_status s1)
            else Some (set_call_status task ?c s1))"
    unfolding iree_task_call_execute_def Let_def inv h cs set_call_status_twice ..
  have again: "iree_task_call_execute E' task s2 =
                   iree_task_retire task c (set_call_status task iree_ok_status s3)"
    if a: "IREE_TASK_FLAG_ABORTED \<notin> flags (headers s2 task)
             \<and> call_fn E' (call_closure (calls s2 task)) task (s2\<lparr>call_log := call_log s2 @ [task]\<rparr>) = (st3, s3)
             \<and> call_status (calls s3 task) = c \<and> c \<noteq> IREE_STATUS_OK
             \<and> pending_dependency_count (headers s3 task) = 0"
    for E' :: "'u env" and s2 st3 s3 c
  proof -
    from a have "call_invoke E' task s2 = s3"
      by (auto simp: call_invoke_def iree_task_try_set_status_def iree_ok_status_def
          set_call_status_same)
    with a show ?thesis
      by (simp add: iree_task_call_execute_def Let_def)
  qed
  have flagged: "iree_task_call_execute E' task s2 =
                   iree_task_retire task c (set_call_status task iree_ok_status s2)"
    if a: "IREE_TASK_FLAG_ABORTED \<in> flags (headers s2 task)
             \<and> call_status (calls s2 task) = c
             \<and> pending_dependency_count (headers s2 task) = 0"
    for E' :: "'u env" and s2 c
  proof -
    from a have "call_invoke E' task s2 = s2"
      by (simp add: call_invoke_def)
    with a show ?thesis
      by (simp add: iree_task_call_execute_def Let_def)
  qed
  from first again flagged show ?thesis by blast
qed

text \<open>Task 2 of \<open>sched_call_nested\<close>: the closure fails with INTERNAL and enqueues the
  nested task 9, so task 2 is not retired and keeps INTERNAL in its slot. Task 9 runs and
  makes task 2 ready again. Executed again, task 2 retires with INTERNAL: the scope fails
  and cleanup function 7 sees ABORTED.\<close>

theorem call_execute_failure_witness:
  "IREE_TASK_FLAG_ABORTED \<notin> flags (headers sched_call_nested 2)
   \<and> fst (call_fn env_nested (call_closure (calls sched_call_nested 2)) 2
            (sched_call_nested\<lparr>call_log := call_log sched_call_nested @ [2]\<rparr>)) = IREE_STATUS_INTERNAL
   \<and> \<not> iree_status_is_ok IREE_STATUS_INTERNAL
   \<and> (\<exists>s1. iree_task_call_execute env_nested 2 sched_call_nested = Some s1
         \<and> call_status (calls s1 2) = IREE_STATUS_INTERNAL
         \<and> pending_dependency_count (headers s1 2) = 1
         \<and> cleanup_log s1 = []
         \<and> permanent_status (scopes s1 0) = IREE_STATUS_OK
         \<and> (\<exists>s2. iree_task_call_execute env_nested 9 s1 = Some s2
               \<and> pending_submission s2 = [2]
               \<and> (\<exists>s3. iree_task_call_execute env_nested 2 s2 = Some s3
                     \<and> cleanup_log s3 = [(7, 2, IREE_STATUS_ABORTED)]
                     \<and> permanent_status (scopes s3 0) = IREE_STATUS_INTERNAL
                     \<and> call_log s3 = [2, 9, 2])))"
proof -
  let ?s = sched_call_nested
  let ?r = "call_fn env_nested (call_closure (calls ?s 2)) 2 (?s\<lparr>call_log := call_log ?s @ [2]\<rparr>)"
  have na: "IREE_TASK_FLAG_ABORTED \<notin> flags (headers ?s 2)"
    by (simp add: sched_call_nested_def sched_zero_def sched_defs)
  have st: "fst ?r = IREE_STATUS_INTERNAL"
    by (simp add: sched_call_nested_def sched_zero_def env_nested_def env_example_def sched_defs)
  then have run: "?r = (IREE_STATUS_INTERNAL, snd ?r)"
    by (metis prod.collapse)
  have fail: "\<not> iree_status_is_ok IREE_STATUS_INTERNAL"
    by (simp add: iree_status_is_ok_def)
  from call_execute_failure [OF na run fail]
  have e: "iree_task_call_execute env_nested 2 ?s =
           (if pending_dependency_count (headers (snd ?r) 2) = 0
            then iree_task_retire 2
                   (if call_status (calls (snd ?r) 2) = IREE_STATUS_OK then IREE_STATUS_INTERNAL
                    else call_status (calls (snd ?r) 2))
                   (set_call_status 2 iree_ok_status (snd ?r))
            else Some (set_call_status 2
                   (if call_status (calls (snd ?r) 2) = IREE_STATUS_OK then IREE_STATUS_INTERNAL
                    else call_status (calls (snd ?r) 2)) (snd ?r)))"
    by blast
  have "\<exists>s1. iree_task_call_execute env_nested 2 sched_call_nested = Some s1
         \<and> call_status (calls s1 2) = IREE_STATUS_INTERNAL
         \<and> pending_dependency_count (headers s1 2) = 1
         \<and> cleanup_log s1 = []
         \<and> permanent_status (scopes s1 0) = IREE_STATUS_OK
         \<and> (\<exists>s2. iree_task_call_execute env_nested 9 s1 = Some s2
               \<and> pending_submission s2 = [2]
               \<and> (\<exists>s3. iree_task_call_execute env_nested 2 s2 = Some s3
                     \<and> cleanup_log s3 = [(7, 2, IREE_STATUS_ABORTED)]
                     \<and> permanent_status (scopes s3 0) = IREE_STATUS_INTERNAL
                     \<and> call_log s3 = [2, 9, 2]))"
    unfolding e
    by (simp add: sched_call_nested_def sched_zero_def env_nested_def env_example_def sched_defs)
  with na st fail show ?thesis by blast
qed

section \<open>A slice with a failing tile\<close>

text \<open>
  Claim C7. A slice whose local memory request fits and whose tile loops end with a
  failure \<open>status\<close>: the execution returns; the tiles it invoked are tiles that returned
  OK followed by the one that returned \<open>status\<close>, and no tile after it; the parent
  dispatch's status slot takes \<open>status\<close> unless it already held a failure; and the slice
  retires with OK: its cleanup function sees OK and no scope is failed.
\<close>

theorem slice_tile_failure:
  assumes mem: "unat (slice_local_memory_size (slices s task)) \<le> data_length"
    and base: "workgroup_base (slices s task) = (base_x, base_y, base_z)"
    and range: "workgroup_range (slices s task) = (range_x, range_y, range_z)"
    and loops: "slice_loop_z E task base_x range_x base_y range_y range_z base_z s = Some (status, s1)"
    and fail: "\<not> iree_status_is_ok status"
  shows "\<exists>s'. iree_task_dispatch_slice_execute E task data_length s = Some s'
     \<and> (\<exists>oks tile. tile_log s' = tile_log s @ oks @ [(slice_closure (slices s task), tile, status)]
           \<and> (\<forall>e \<in> set oks. snd (snd e) = IREE_STATUS_OK))
     \<and> dispatch_status (dispatches s' (slice_dispatch_status (slices s task))) =
         (if dispatch_status (dispatches s (slice_dispatch_status (slices s task))) = IREE_STATUS_OK
          then status
          else dispatch_status (dispatches s (slice_dispatch_status (slices s task))))
     \<and> cleanup_log s' = cleanup_log s @
         (case cleanup_fn (headers s task) of None \<Rightarrow> [] | Some fn \<Rightarrow> [(fn, task, IREE_STATUS_OK)])
     \<and> scopes s' = scopes s"
proof -
  let ?d = "slice_dispatch_status (slices s task)"
  from slice_loop_z_ran [OF loops] have ran: "tiles_ran task status s s1"
    by simp
  then obtain stats oks failed where
    f1: "headers s1 = headers s" "dispatches s1 = dispatches s" "scopes s1 = scopes s"
      "cleanup_log s1 = cleanup_log s"
    and sl1: "slices s1 = (slices s)(task := (slices s task)\<lparr>slice_statistics := stats\<rparr>)"
    and l1: "tile_log s1 = tile_log s @ oks @ failed" "\<forall>e \<in> set oks. snd (snd e) = IREE_STATUS_OK"
      "if iree_status_is_ok status then failed = []
       else \<exists>tile. failed = [(slice_closure (slices s task), tile, status)]"
    unfolding tiles_ran_def by blast
  from l1(3) fail obtain tile where failed: "failed = [(slice_closure (slices s task), tile, status)]"
    by auto
  define s2 where "s2 = set_dispatch ?d
      (\<lambda>dt. dt\<lparr>dispatch_status := iree_task_try_set_status (dispatch_status dt) status\<rparr>)
      (case slice_dispatch_statistics (slices s1 task) of
         None \<Rightarrow> s1
       | Some d \<Rightarrow>
           set_dispatch d
             (\<lambda>dt. dt\<lparr>dispatch_statistics :=
                iree_task_dispatch_statistics_merge (slice_statistics (slices s1 task))
                  (dispatch_statistics dt)\<rparr>) s1)"
  have sd: "slice_dispatch_status (slices s1 task) = ?d"
    by (simp add: sl1)
  have fin: "slice_finish task status s1 = iree_task_retire task iree_ok_status s2"
    using fail by (simp add: slice_finish_def Let_def s2_def sd)
  have ex: "iree_task_dispatch_slice_execute E task data_length s = iree_task_retire task iree_ok_status s2"
    using mem loops by (simp add: iree_task_dispatch_slice_execute_def Let_def base range fin)
  have s2: "headers s2 = headers s" "scopes s2 = scopes s" "cleanup_log s2 = cleanup_log s"
    "tile_log s2 = tile_log s1"
    by (simp_all add: s2_def set_dispatch_def f1 split: option.splits)
  have ds: "dispatch_status (dispatches s2 ?d) =
         (if dispatch_status (dispatches s ?d) = IREE_STATUS_OK then status
          else dispatch_status (dispatches s ?d))"
    using fail
    by (simp add: s2_def set_dispatch_def f1 iree_task_try_set_status_def iree_ok_status_def
        split: option.splits)
  from retire_ok [of task s2] obtain s' where
    r: "iree_task_retire task iree_ok_status s2 = Some s'"
    and cl: "cleanup_log s' = cleanup_log s2 @
         (case cleanup_fn (headers s2 task) of None \<Rightarrow> [] | Some fn \<Rightarrow> [(fn, task, IREE_STATUS_OK)])"
    and sc: "scopes s' = scopes s2" and rel: "retire_rel s2 s'"
    by blast
  from rel have k: "tile_log s' = tile_log s2" "dispatches s' = dispatches s2"
    by (simp_all add: retire_rel_def)
  have "tile_log s' = tile_log s @ oks @ [(slice_closure (slices s task), tile, status)]"
    by (simp add: k s2 l1 failed)
  with l1(2) have lg: "\<exists>oks tile. tile_log s' = tile_log s @ oks @ [(slice_closure (slices s task), tile, status)]
           \<and> (\<forall>e \<in> set oks. snd (snd e) = IREE_STATUS_OK)"
    by blast
  show ?thesis
    using ex r lg ds cl sc by (simp add: k s2)
qed

text \<open>The slice of \<open>sched_slice_row\<close> covers tiles (0,0,0) to (2,0,0); with
  \<open>env_tile_fail\<close> the second tile fails: two tiles are invoked, the dispatch's slot takes
  INTERNAL, the slice's cleanup function sees OK and the scope stays OK.\<close>

theorem slice_tile_failure_witness:
  "unat (slice_local_memory_size (slices sched_slice_row 6)) \<le> 0
   \<and> workgroup_base (slices sched_slice_row 6) = (0, 0, 0)
   \<and> workgroup_range (slices sched_slice_row 6) = (2, 0, 0)
   \<and> (\<exists>s1. slice_loop_z env_tile_fail 6 0 2 0 0 0 0 sched_slice_row = Some (IREE_STATUS_INTERNAL, s1))
   \<and> \<not> iree_status_is_ok IREE_STATUS_INTERNAL
   \<and> (\<exists>s'. iree_task_dispatch_slice_execute env_tile_fail 6 0 sched_slice_row = Some s'
         \<and> tile_log s' = [(0, (0, 0, 0), IREE_STATUS_OK), (0, (1, 0, 0), IREE_STATUS_INTERNAL)]
         \<and> dispatch_status (dispatches s' 5) = IREE_STATUS_INTERNAL
         \<and> cleanup_log s' = [(7, 6, IREE_STATUS_OK)]
         \<and> permanent_status (scopes s' 0) = IREE_STATUS_OK)"
proof -
  have mem: "unat (slice_local_memory_size (slices sched_slice_row 6)) \<le> 0"
    and base: "workgroup_base (slices sched_slice_row 6) = (0, 0, 0)"
    and range: "workgroup_range (slices sched_slice_row 6) = (2, 0, 0)"
    and facts: "slice_dispatch_status (slices sched_slice_row 6) = 5"
      "dispatch_status (dispatches sched_slice_row 5) = IREE_STATUS_OK"
      "cleanup_log sched_slice_row = []" "cleanup_fn (headers sched_slice_row 6) = Some 7"
      "permanent_status (scopes sched_slice_row 0) = IREE_STATUS_OK"
    by (simp_all add: example_defs sched_defs)
  have "\<exists>s1. slice_loop_z env_tile_fail 6 0 2 0 0 0 0 sched_slice_row = Some (IREE_STATUS_INTERNAL, s1)"
    by (simp add: example_defs sched_defs slice_loop_z.simps slice_loop_y.simps slice_loop_x.simps)
  then obtain s1 where
    loops: "slice_loop_z env_tile_fail 6 0 2 0 0 0 0 sched_slice_row = Some (IREE_STATUS_INTERNAL, s1)"
    by blast
  have fail: "\<not> iree_status_is_ok IREE_STATUS_INTERNAL"
    by (simp add: iree_status_is_ok_def)
  from slice_tile_failure [OF mem base range loops fail]
  obtain s' where ex: "iree_task_dispatch_slice_execute env_tile_fail 6 0 sched_slice_row = Some s'"
    and ds: "dispatch_status (dispatches s' 5) = IREE_STATUS_INTERNAL"
    and cl: "cleanup_log s' = [(7, 6, IREE_STATUS_OK)]"
    and sc: "scopes s' = scopes sched_slice_row"
    by (auto simp: facts)
  have "map_option tile_log (iree_task_dispatch_slice_execute env_tile_fail 6 0 sched_slice_row)
      = Some [(0, (0, 0, 0), IREE_STATUS_OK), (0, (1, 0, 0), IREE_STATUS_INTERNAL)]"
    by (simp add: example_defs sched_defs slice_loop_z.simps slice_loop_y.simps slice_loop_x.simps)
  with ex have tl: "tile_log s' = [(0, (0, 0, 0), IREE_STATUS_OK), (0, (1, 0, 0), IREE_STATUS_INTERNAL)]"
    by simp
  from mem base range loops fail ex ds cl sc tl facts(5) show ?thesis
    by auto
qed

section \<open>Statistics of a dispatch\<close>

text \<open>Whatever the tiles of a slice record, executing the slice leaves the statistics of
  every dispatch as they were: \<open>iree_task_dispatch_statistics_merge\<close> does nothing.\<close>

lemma slice_execute_dispatch_statistics:
  assumes "iree_task_dispatch_slice_execute E task data_length s = Some s'"
  shows "dispatch_statistics (dispatches s' d) = dispatch_statistics (dispatches s d)"
proof (cases "unat (slice_local_memory_size (slices s task)) > data_length")
  case True
  with assms have "iree_task_retire task IREE_STATUS_RESOURCE_EXHAUSTED s = Some s'"
    by (simp add: iree_task_dispatch_slice_execute_def Let_def)
  from retire_rel [OF this] show ?thesis
    by (simp add: retire_rel_def)
next
  case False
  obtain base_x base_y base_z range_x range_y range_z where
    b: "workgroup_base (slices s task) = (base_x, base_y, base_z)"
    and r: "workgroup_range (slices s task) = (range_x, range_y, range_z)"
    by (metis prod_cases3)
  from assms False b r obtain status s1 where
    l: "slice_loop_z E task base_x range_x base_y range_y range_z base_z s = Some (status, s1)"
    and f: "slice_finish task status s1 = Some s'"
    by (auto simp: iree_task_dispatch_slice_execute_def Let_def bind_eq_Some_conv)
  from slice_loop_z_ran [OF l] have d1: "dispatches s1 = dispatches s"
    by (simp add: tiles_ran_def)
  from f obtain s2 where r2: "iree_task_retire task iree_ok_status s2 = Some s'"
    and d2: "dispatch_statistics (dispatches s2 d) = dispatch_statistics (dispatches s1 d)"
    by (auto simp: slice_finish_def Let_def set_dispatch_def iree_task_dispatch_statistics_merge_def
        split: option.splits if_splits)
  from retire_rel [OF r2] d2 d1 show ?thesis
    by (simp add: retire_rel_def)
qed

text \<open>
  Claim C9 fails on the code. The dispatch of \<open>sched_slice_row\<close> has three tiles in one
  slice and each tile records one unit: the slice's own block counts 3, but after the
  slice has retired the dispatch's statistics are still 0, and after the dispatch has
  retired the scope's are 0 too.
\<close>

theorem dispatch_statistics_not_merged:
  "map_option (\<lambda>s'. (tile_log s', slice_statistics (slices s' 6),
                     dispatch_statistics (dispatches s' 5), pending_submission s'))
     (iree_task_dispatch_slice_execute env_example 6 0 sched_slice_row)
   = Some ([(0, (0, 0, 0), IREE_STATUS_OK), (0, (1, 0, 0), IREE_STATUS_OK),
            (0, (2, 0, 0), IREE_STATUS_OK)], 3, 0, [5])
   \<and> map_option (\<lambda>s'. (dispatch_statistics (dispatches s' 5), scope_dispatch_statistics (scopes s' 0)))
       (Option.bind (iree_task_dispatch_slice_execute env_example 6 0 sched_slice_row)
          (iree_task_dispatch_retire 5))
     = Some (0, 0)"
  by (simp add: example_defs sched_defs slice_loop_z.simps slice_loop_y.simps slice_loop_x.simps)

section \<open>Slices of a dispatch\<close>

text \<open>
  Claim C1 fails on the code: the number of slices along a dimension is
  \<open>max 1 (count / TILES_PER_SLICE)\<close>, a division that rounds down, so the tiles past the
  last full block are in no slice. With eight tiles per slice along x, the 9x1x1 dispatch
  of \<open>sched_nine\<close> gets the single slice from (0,0,0) to (7,0,0), which is posted to
  worker 0; tile (8,0,0) is in no slice, and the dispatch waits for that one slice only.
\<close>

theorem issue_sliced_drops_remainder:
  "map_option
     (\<lambda>s. (map (\<lambda>(w, t). (w, t, workgroup_base (slices s (the t)), workgroup_range (slices s (the t))))
              (post_batch s),
            pending_dependency_count (headers s 5)))
     (iree_task_dispatch_issue_sliced env_example 5 0 sched_nine)
   = Some ([(0, Some 6, (0, 0, 0), (7, 0, 0))], 1)"
  by (simp add: sched_nine_def example_defs sched_defs)

section \<open>Tasks downstream of a failure\<close>

text \<open>
  Claim C4. A task of a scope fails: it is retired with a non-OK status, from \<open>s\<close> to
  \<open>s1\<close>. Retiring it invokes no closure, whatever it discards. Workers then go on in any
  way, from \<open>s1\<close> to \<open>s2\<close>, with closures that do not reset a failed scope; the scope is
  still failed in \<open>s2\<close>. When a worker then takes a task \<open>t\<close> of that scope, reachable from
  the failed task or not, no closure is invoked: neither the log of CALL closures, nor the
  log of dispatch closures, nor the user state changes. On the side of the code,
  \<open>call_execute_aborted\<close> shows that a CALL flagged ABORTED does not invoke its closure
  when it is executed.
\<close>

theorem failed_scope_skips_closures:
  assumes cl: "closures_keep_failures E"
    and fail: "\<not> iree_status_is_ok status"
    and ret: "iree_task_retire task status s = Some s1"
    and run: "worker_steps E s1 s2"
    and sc: "scope (headers s2 t) = scope (headers s task)"
    and ex: "worker_execute E w t s2 = Some s3"
  shows "call_log s1 = call_log s \<and> tile_log s1 = tile_log s \<and> user s1 = user s
       \<and> \<not> iree_status_is_ok (permanent_status (scopes s2 (scope (headers s task))))
       \<and> call_log s3 = call_log s2 \<and> tile_log s3 = tile_log s2 \<and> user s3 = user s2"
proof -
  from retire_rel [OF ret] have a: "call_log s1 = call_log s \<and> tile_log s1 = tile_log s \<and> user s1 = user s"
    by (simp add: retire_rel_def)
  from retire_fails_scope [OF fail ret]
  have "\<not> iree_status_is_ok (permanent_status (scopes s1 (scope (headers s task))))" .
  with worker_steps_keep [OF cl run]
  have f: "\<not> iree_status_is_ok (permanent_status (scopes s2 (scope (headers s task))))"
    by (simp add: keeps_failures_def)
  then have "\<not> iree_status_is_ok (permanent_status (scopes s2 (scope (headers s2 t))))"
    by (simp add: sc)
  from worker_execute_failed_scope [OF this ex] a f show ?thesis
    by simp
qed

text \<open>In \<open>sched_aside\<close> task 2 fails with INTERNAL while task 4 still waits for task 3.
  A worker runs task 9 of scope 1, whose closure is invoked. Then a worker takes task 3:
  it is discarded, and with it tasks 4 and 8; their cleanup functions see ABORTED and no
  further closure is invoked.\<close>

theorem failed_scope_skips_closures_witness:
  "closures_keep_failures env_call_fail
   \<and> \<not> iree_status_is_ok IREE_STATUS_INTERNAL
   \<and> (\<exists>s1 s2 s3.
        iree_task_retire 2 IREE_STATUS_INTERNAL sched_aside = Some s1
      \<and> worker_steps env_call_fail s1 s2
      \<and> scope (headers s2 3) = scope (headers sched_aside 2)
      \<and> worker_execute env_call_fail worker_example 3 s2 = Some s3
      \<and> call_log s2 = [9]
      \<and> call_log s3 = [9]
      \<and> cleanup_log s3 = [(7, 2, IREE_STATUS_ABORTED), (7, 3, IREE_STATUS_ABORTED),
                           (7, 4, IREE_STATUS_ABORTED), (7, 8, IREE_STATUS_ABORTED)])"
proof -
  have cl: "closures_keep_failures env_call_fail"
    by (simp add: closures_keep_failures_def keeps_failures_def env_call_fail_def env_example_def)
  have h: "\<not> iree_status_is_ok IREE_STATUS_INTERNAL"
    by (simp add: iree_status_is_ok_def)
  have sc0: "scope (headers sched_aside 2) = 0"
    by (simp add: sched_aside_def sched_chain_def sched_zero_def sched_defs)
  have "\<exists>s1. iree_task_retire 2 IREE_STATUS_INTERNAL sched_aside = Some s1
      \<and> (\<exists>s2. worker_execute env_call_fail worker_example 9 s1 = Some s2
            \<and> scope (headers s2 3) = 0 \<and> call_log s2 = [9]
            \<and> (\<exists>s3. worker_execute env_call_fail worker_example 3 s2 = Some s3
                  \<and> cleanup_log s3 = [(7, 2, IREE_STATUS_ABORTED), (7, 3, IREE_STATUS_ABORTED),
                           (7, 4, IREE_STATUS_ABORTED), (7, 8, IREE_STATUS_ABORTED)]))"
    by (simp add: sched_aside_def sched_chain_def sched_zero_def env_call_fail_def env_example_def
        worker_execute_def iree_task_nop_retire_def sched_defs iree_task_list_discard.simps)
  then obtain s1 s2 s3 where r: "iree_task_retire 2 IREE_STATUS_INTERNAL sched_aside = Some s1"
    and e9: "worker_execute env_call_fail worker_example 9 s1 = Some s2"
    and sc: "scope (headers s2 3) = 0" and lg2: "call_log s2 = [9]"
    and e3: "worker_execute env_call_fail worker_example 3 s2 = Some s3"
    and cl3: "cleanup_log s3 = [(7, 2, IREE_STATUS_ABORTED), (7, 3, IREE_STATUS_ABORTED),
                           (7, 4, IREE_STATUS_ABORTED), (7, 8, IREE_STATUS_ABORTED)]"
    by (elim exE conjE)
  from e9 have run: "worker_steps env_call_fail s1 s2"
    unfolding worker_steps_def by (intro r_into_rtranclp exI)
  from sc sc0 have sc': "scope (headers s2 3) = scope (headers sched_aside 2)"
    by simp
  from failed_scope_skips_closures [OF cl h r run sc' e3] lg2 have "call_log s3 = [9]"
    by simp
  with r run sc' e3 lg2 cl3 have "iree_task_retire 2 IREE_STATUS_INTERNAL sched_aside = Some s1
      \<and> worker_steps env_call_fail s1 s2
      \<and> scope (headers s2 3) = scope (headers sched_aside 2)
      \<and> worker_execute env_call_fail worker_example 3 s2 = Some s3
      \<and> call_log s2 = [9]
      \<and> call_log s3 = [9]
      \<and> cleanup_log s3 = [(7, 2, IREE_STATUS_ABORTED), (7, 3, IREE_STATUS_ABORTED),
                           (7, 4, IREE_STATUS_ABORTED), (7, 8, IREE_STATUS_ABORTED)]"
    by (intro conjI)
  then have "\<exists>s1 s2 s3.
        iree_task_retire 2 IREE_STATUS_INTERNAL sched_aside = Some s1
      \<and> worker_steps env_call_fail s1 s2
      \<and> scope (headers s2 3) = scope (headers sched_aside 2)
      \<and> worker_execute env_call_fail worker_example 3 s2 = Some s3
      \<and> call_log s2 = [9]
      \<and> call_log s3 = [9]
      \<and> cleanup_log s3 = [(7, 2, IREE_STATUS_ABORTED), (7, 3, IREE_STATUS_ABORTED),
                           (7, 4, IREE_STATUS_ABORTED), (7, 8, IREE_STATUS_ABORTED)]"
    by (intro exI)
  with cl h show ?thesis
    by (intro conjI)
qed

section \<open>Shards cover the tiles of a dispatch\<close>


















end
